theory Spec2Isabelle
  imports Complex_Main
begin

section \<open>Exceptions and effects\<close>

text \<open>
  The exceptions of \<^verbatim>\<open>main.py\<close> that the modelled functions can meet. The first
  three are the classes named in the \<^verbatim>\<open>except\<close> clause of \<^verbatim>\<open>fetch_with_retry\<close>
  (\<^verbatim>\<open>ccxt.NetworkError\<close>, \<^verbatim>\<open>ccxt.ExchangeError\<close>,
  \<^verbatim>\<open>requests.exceptions.RequestException\<close>, each with its subclasses); the others are
  Python's built-in exceptions raised by indexing, lookups and comparisons. All of them are
  subclasses of \<^verbatim>\<open>Exception\<close>.

  \<open>ProviderUnavailable\<close> is not a class of the source: no statement of \<^verbatim>\<open>main.py\<close>
  defines or raises it. The constructor stands for the error of that name in the
  specification, so that a statement about it can be written down and compared with what
  the code raises.
\<close>

datatype exn =
    NetworkError
  | ExchangeError
  | RequestException
  | KeyError
  | IndexError
  | TypeError
  | ValueError
  | AttributeError
  | ProviderUnavailable exn

fun is_ProviderUnavailable :: "exn \<Rightarrow> bool" where
  "is_ProviderUnavailable (ProviderUnavailable c) = True"
| "is_ProviderUnavailable _ = False"

text \<open>
  The \<^verbatim>\<open>except (ccxt.NetworkError, ccxt.ExchangeError,
  requests.exceptions.RequestException)\<close> clause: the errors that are retried.
\<close>

fun is_transient :: "exn \<Rightarrow> bool" where
  "is_transient NetworkError = True"
| "is_transient ExchangeError = True"
| "is_transient RequestException = True"
| "is_transient _ = False"

text \<open>
  A zero-argument operation acts on the outside world (the exchange, the network): it
  takes the state \<open>'w\<close> of that world and returns either the exception it raised or its
  value, with the new state. What \<^verbatim>\<open>fetch_with_retry\<close> does besides is recorded
  as a trace: one \<open>Invoke\<close> per call of the operation, one \<open>Sleep d\<close> per
  \<^verbatim>\<open>time.sleep(d)\<close>.
\<close>

type_synonym ('w, 'a) operation = "'w \<Rightarrow> (exn + 'a) \<times> 'w"

datatype event = Invoke | Sleep int

section \<open>fetch_with_retry\<close>

text \<open>
  \<^verbatim>\<open>
  def fetch_with_retry(method, max_retries=3, delay=1):
      for i in range(max_retries):
          try:
              return method()
          except (ccxt.NetworkError, ccxt.ExchangeError, requests.exceptions.RequestException):
              if i < max_retries - 1:
                  time.sleep(delay * (i + 1))
                  continue
              raise
      return None
  \<close>
  \<open>py_range n\<close> is \<^verbatim>\<open>range(n)\<close>, empty for \<open>n \<le> 0\<close>. \<open>retry_loop\<close> is the
  \<^verbatim>\<open>for\<close> loop over the remaining indices. The value \<open>Inr None\<close> is the
  \<^verbatim>\<open>return None\<close> after the loop, \<open>Inr (Some v)\<close> the value of the operation.
  \<^verbatim>\<open>time.sleep\<close> raises \<^verbatim>\<open>ValueError\<close> for a negative argument; raised inside
  the handler, that error leaves the function.
\<close>

definition py_range :: "int \<Rightarrow> int list" where
  "py_range n = [0..n - 1]"

fun retry_loop ::
  "('w, 'a) operation \<Rightarrow> int \<Rightarrow> int \<Rightarrow> int list \<Rightarrow> 'w \<Rightarrow> (exn + 'a option) \<times> 'w \<times> event list"
where
  "retry_loop method max_retries delay [] w = (Inr None, w, [])"
| "retry_loop method max_retries delay (i # rest) w =
     (case method w of
        (Inr v, w') \<Rightarrow> (Inr (Some v), w', [Invoke])
      | (Inl e, w') \<Rightarrow>
          if is_transient e then
            if i < max_retries - 1 then
              if delay * (i + 1) < 0 then (Inl ValueError, w', [Invoke])
              else
                (case retry_loop method max_retries delay rest w' of
                   (r, w'', tr) \<Rightarrow> (r, w'', Invoke # Sleep (delay * (i + 1)) # tr))
            else (Inl e, w', [Invoke])
          else (Inl e, w', [Invoke]))"

definition fetch_with_retry ::
  "('w, 'a) operation \<Rightarrow> int \<Rightarrow> int \<Rightarrow> 'w \<Rightarrow> (exn + 'a option) \<times> 'w \<times> event list"
where
  "fetch_with_retry method max_retries delay w =
     retry_loop method max_retries delay (py_range max_retries) w"

text \<open>The state of the world after \<open>k\<close> calls of the operation, and the trace of a run
  of \<open>n\<close> failed attempts: an invocation, then for each attempt index \<open>k = 1, \<dots>, n - 1\<close>
  a sleep of \<open>delay * k\<close> followed by the next invocation.\<close>

definition after_calls :: "('w, 'a) operation \<Rightarrow> nat \<Rightarrow> 'w \<Rightarrow> 'w" where
  "after_calls method k w = ((\<lambda>s. snd (method s)) ^^ k) w"

definition backoff_trace :: "int \<Rightarrow> int \<Rightarrow> int \<Rightarrow> event list" where
  "backoff_trace delay k n = Invoke # concat (map (\<lambda>j. [Sleep (delay * j), Invoke]) [k..n - 1])"

definition always_transient :: "('w, 'a) operation \<Rightarrow> bool" where
  "always_transient method = (\<forall>w. case fst (method w) of Inl e \<Rightarrow> is_transient e | Inr v \<Rightarrow> False)"

definition invocations :: "event list \<Rightarrow> nat" where
  "invocations tr = length (filter (\<lambda>ev. ev = Invoke) tr)"

fun sleeps :: "event list \<Rightarrow> int list" where
  "sleeps [] = []"
| "sleeps (Invoke # tr) = sleeps tr"
| "sleeps (Sleep d # tr) = d # sleeps tr"

text \<open>An operation that raises \<^verbatim>\<open>ccxt.NetworkError\<close> at every call, and one that raises
  \<^verbatim>\<open>KeyError\<close> at every call; the state counts the calls.\<close>

definition always_network_error :: "(nat, unit) operation" where
  "always_network_error w = (Inl NetworkError, Suc w)"

definition always_key_error :: "(nat, unit) operation" where
  "always_key_error w = (Inl KeyError, Suc w)"

section \<open>The exchange\<close>

text \<open>
  The data the provider returns. A market of the directory carries its \<^verbatim>\<open>'active'\<close>
  flag, read for its truth value. A ticker carries its \<^verbatim>\<open>'symbol'\<close> and its
  \<^verbatim>\<open>'quoteVolume'\<close>, which the code reads with \<^verbatim>\<open>t.get('quoteVolume', 0)\<close>: the
  key can be absent, hold \<^verbatim>\<open>None\<close>, or hold a number. A candle is one row
  \<^verbatim>\<open>[timestamp, open, high, low, close, volume]\<close> of finite numbers.
\<close>

record market =
  active :: bool

datatype quote_volume = Absent | PyNone | Num real

record ticker =
  symbol :: string
  quoteVolume :: quote_volume

record candle =
  timestamp :: int
  open_price :: real
  high :: real
  low :: real
  close :: real
  volume :: real

text \<open>
  The \<^verbatim>\<open>exchange\<close> object (\<^verbatim>\<open>ccxt.binance\<close>), by the three calls the code makes.
  Each acts on the state \<open>'w\<close> of the outside world and can raise. \<open>fetch_tickers\<close>
  gives the values of the returned dictionary in its order, the only view of it the code
  takes (\<^verbatim>\<open>tickers.values()\<close>). \<open>fetch_ohlcv\<close> is called with
  \<^verbatim>\<open>(symbol, TIMEFRAME, limit=168)\<close>; timeframe and limit are constants of the call.
\<close>

record 'w exchange =
  load_markets :: "'w \<Rightarrow> (exn + (string \<Rightarrow> market option)) \<times> 'w"
  fetch_tickers :: "'w \<Rightarrow> (exn + ticker list) \<times> 'w"
  fetch_ohlcv :: "string \<Rightarrow> 'w \<Rightarrow> (exn + candle list) \<times> 'w"

definition MIN_VOLUME :: real where
  "MIN_VOLUME = 2500000"

definition SYMBOL_LIMIT :: nat where
  "SYMBOL_LIMIT = 100"

section \<open>get_active_symbols\<close>

text \<open>\<^verbatim>\<open>s.endswith(suf)\<close>.\<close>

definition endswith :: "string \<Rightarrow> string \<Rightarrow> bool" where
  "endswith s suf = (length suf \<le> length s \<and> drop (length s - length suf) s = suf)"

text \<open>
  \<^verbatim>\<open>
  usdt_tickers = [t for t in tickers.values()
                 if t['symbol'].endswith('/USDT') and markets[t['symbol']]['active']]
  \<close>
  The directory is looked up only for a symbol that ends in \<^verbatim>\<open>/USDT\<close> (\<^verbatim>\<open>and\<close>
  short-circuits); a symbol missing from it raises \<^verbatim>\<open>KeyError\<close>. \<open>markets\<close> is
  \<open>None\<close> when \<^verbatim>\<open>fetch_with_retry\<close> returned \<^verbatim>\<open>None\<close>, and subscripting it raises
  \<^verbatim>\<open>TypeError\<close>. The comprehension stops at the first element that raises.
\<close>

fun usdt_tickers :: "(string \<Rightarrow> market option) option \<Rightarrow> ticker list \<Rightarrow> exn + ticker list" where
  "usdt_tickers markets [] = Inr []"
| "usdt_tickers markets (t # ts) =
     (if endswith (symbol t) ''/USDT'' then
        (case markets of
           None \<Rightarrow> Inl TypeError
         | Some m \<Rightarrow>
             (case m (symbol t) of
                None \<Rightarrow> Inl KeyError
              | Some mk \<Rightarrow>
                  (case usdt_tickers markets ts of
                     Inl e \<Rightarrow> Inl e
                   | Inr r \<Rightarrow> Inr (if active mk then t # r else r))))
      else usdt_tickers markets ts)"

text \<open>
  \<^verbatim>\<open>[t for t in usdt_tickers if t.get('quoteVolume', 0) > MIN_VOLUME]\<close>: an absent key
  counts as 0, and \<^verbatim>\<open>None > MIN_VOLUME\<close> raises \<^verbatim>\<open>TypeError\<close>.
\<close>

fun volume_above_min :: "ticker list \<Rightarrow> exn + ticker list" where
  "volume_above_min [] = Inr []"
| "volume_above_min (t # ts) =
     (case quoteVolume t of
        PyNone \<Rightarrow> Inl TypeError
      | Absent \<Rightarrow> (if 0 > MIN_VOLUME then map_sum id (Cons t) (volume_above_min ts)
                   else volume_above_min ts)
      | Num v \<Rightarrow> (if v > MIN_VOLUME then map_sum id (Cons t) (volume_above_min ts)
                  else volume_above_min ts))"

text \<open>
  \<^verbatim>\<open>sorted(..., key=lambda x: x['quoteVolume'], reverse=True)\<close>: a stable sort on the
  key with the order reversed, which is the reverse of the stable ascending sort of the
  reversed list. The key is read from tickers that passed \<open>volume_above_min\<close>, each of
  which holds a number (lemma \<open>volume_above_min_Num\<close>), so the lookup cannot raise there.
\<close>

definition volume_key :: "ticker \<Rightarrow> real" where
  "volume_key t = (case quoteVolume t of Num v \<Rightarrow> v | _ \<Rightarrow> 0)"

definition sorted_reverse :: "('a \<Rightarrow> real) \<Rightarrow> 'a list \<Rightarrow> 'a list" where
  "sorted_reverse key xs = rev (sort_key key (rev xs))"

text \<open>The local variable \<^verbatim>\<open>volume_filtered\<close>: filtered, sorted, cut with
  \<^verbatim>\<open>[:SYMBOL_LIMIT]\<close>.\<close>

definition volume_filtered ::
  "(string \<Rightarrow> market option) option \<Rightarrow> ticker list \<Rightarrow> exn + ticker list"
where
  "volume_filtered markets tickers =
     (case usdt_tickers markets tickers of
        Inl e \<Rightarrow> Inl e
      | Inr usdt \<Rightarrow>
          (case volume_above_min usdt of
             Inl e \<Rightarrow> Inl e
           | Inr kept \<Rightarrow> Inr (take SYMBOL_LIMIT (sorted_reverse volume_key kept))))"

text \<open>
  \<^verbatim>\<open>
  def get_active_symbols():
      try:
          markets = fetch_with_retry(lambda: exchange.load_markets())
          tickers = fetch_with_retry(lambda: exchange.fetch_tickers())
          usdt_tickers = ...
          volume_filtered = ...
          return [t['symbol'] for t in volume_filtered]
      except Exception as e:
          print(f"Symbol fetch error: {e}")
          return []
  \<close>
  \<open>get_active_symbols_try\<close> is the body of the \<^verbatim>\<open>try\<close>; a \<^verbatim>\<open>None\<close> in place of
  the tickers raises \<^verbatim>\<open>AttributeError\<close> at \<^verbatim>\<open>tickers.values()\<close>.
  \<open>get_active_symbols\<close> adds the handler. The \<^verbatim>\<open>@cache.memoize\<close> decorator, which
  hands out the value of an earlier call for \<^verbatim>\<open>CACHE_TIMEOUT\<close> seconds, is not part
  of the model: the function below is one computation of that value.
\<close>

definition get_active_symbols_try :: "'w exchange \<Rightarrow> 'w \<Rightarrow> (exn + string list) \<times> 'w" where
  "get_active_symbols_try ex w =
     (case fetch_with_retry (load_markets ex) 3 1 w of
        (Inl e, w1, tr1) \<Rightarrow> (Inl e, w1)
      | (Inr markets, w1, tr1) \<Rightarrow>
          (case fetch_with_retry (fetch_tickers ex) 3 1 w1 of
             (Inl e, w2, tr2) \<Rightarrow> (Inl e, w2)
           | (Inr None, w2, tr2) \<Rightarrow> (Inl AttributeError, w2)
           | (Inr (Some tickers), w2, tr2) \<Rightarrow>
               (case volume_filtered markets tickers of
                  Inl e \<Rightarrow> (Inl e, w2)
                | Inr vf \<Rightarrow> (Inr (map symbol vf), w2))))"

definition get_active_symbols :: "'w exchange \<Rightarrow> 'w \<Rightarrow> (exn + string list) \<times> 'w" where
  "get_active_symbols ex w =
     (case get_active_symbols_try ex w of
        (Inl e, w') \<Rightarrow> (Inr [], w')
      | (Inr symbols, w') \<Rightarrow> (Inr symbols, w'))"

section \<open>Floating-point values\<close>

text \<open>
  The columns of the data frame are \<^verbatim>\<open>float64\<close>. A value of that type is modelled as
  a finite real number, a negative zero, an infinity or a NaN: \<open>Fin x\<close> is the finite
  value \<open>x\<close> (\<open>Fin 0\<close> is the positive zero), \<open>NZero\<close> is \<^verbatim>\<open>-0.0\<close>. The operations
  follow IEEE 754 on the special values and on the sign of a zero result, and are exact on
  finite values: rounding, overflow and underflow are not modelled. As in numpy and
  pandas, a division by zero raises nothing: it gives an infinity, or NaN for \<^verbatim>\<open>0/0\<close>.
\<close>

datatype fl = Fin real | NZero | PInf | NInf | NaN

text \<open>The sign bit (\<open>True\<close> for negative) and the numeric value of a finite operand.\<close>

fun fl_sign :: "fl \<Rightarrow> bool" where
  "fl_sign (Fin x) = (x < 0)"
| "fl_sign NZero = True"
| "fl_sign PInf = False"
| "fl_sign NInf = True"
| "fl_sign NaN = False"

fun fl_val :: "fl \<Rightarrow> real" where
  "fl_val (Fin x) = x"
| "fl_val _ = 0"

definition fl_is_inf :: "fl \<Rightarrow> bool" where
  "fl_is_inf a = (a = PInf \<or> a = NInf)"

text \<open>\<open>fl_is_zero a\<close> is the comparison \<^verbatim>\<open>a == 0\<close>, true of both zeros.\<close>

definition fl_is_zero :: "fl \<Rightarrow> bool" where
  "fl_is_zero a = (a = Fin 0 \<or> a = NZero)"

definition signed_zero :: "bool \<Rightarrow> fl" where
  "signed_zero s = (if s then NZero else Fin 0)"

definition signed_inf :: "bool \<Rightarrow> fl" where
  "signed_inf s = (if s then NInf else PInf)"

text \<open>The finite result \<open>x\<close> of an operation; when it is zero, its sign is \<open>s\<close>.\<close>

definition fl_result :: "bool \<Rightarrow> real \<Rightarrow> fl" where
  "fl_result s x = (if x = 0 then signed_zero s else Fin x)"

fun fneg :: "fl \<Rightarrow> fl" where
  "fneg (Fin x) = (if x = 0 then NZero else Fin (- x))"
| "fneg NZero = Fin 0"
| "fneg PInf = NInf"
| "fneg NInf = PInf"
| "fneg NaN = NaN"

text \<open>A zero sum is negative only when both operands are negative zeros.\<close>

definition fadd :: "fl \<Rightarrow> fl \<Rightarrow> fl" where
  "fadd a b =
     (if a = NaN \<or> b = NaN then NaN
      else if a = PInf then (if b = NInf then NaN else PInf)
      else if a = NInf then (if b = PInf then NaN else NInf)
      else if b = PInf then PInf
      else if b = NInf then NInf
      else fl_result (fl_sign a \<and> fl_sign b) (fl_val a + fl_val b))"

definition fsub :: "fl \<Rightarrow> fl \<Rightarrow> fl" where
  "fsub a b = fadd a (fneg b)"

definition fmul :: "fl \<Rightarrow> fl \<Rightarrow> fl" where
  "fmul a b =
     (if a = NaN \<or> b = NaN then NaN
      else if fl_is_inf a \<or> fl_is_inf b then
        (if fl_is_zero a \<or> fl_is_zero b then NaN else signed_inf (fl_sign a \<noteq> fl_sign b))
      else fl_result (fl_sign a \<noteq> fl_sign b) (fl_val a * fl_val b))"

definition fdiv :: "fl \<Rightarrow> fl \<Rightarrow> fl" where
  "fdiv a b =
     (if a = NaN \<or> b = NaN then NaN
      else if fl_is_inf a then
        (if fl_is_inf b then NaN else signed_inf (fl_sign a \<noteq> fl_sign b))
      else if fl_is_inf b then signed_zero (fl_sign a \<noteq> fl_sign b)
      else if fl_is_zero b then
        (if fl_is_zero a then NaN else signed_inf (fl_sign a \<noteq> fl_sign b))
      else fl_result (fl_sign a \<noteq> fl_sign b) (fl_val a / fl_val b))"

fun fsqrt :: "fl \<Rightarrow> fl" where
  "fsqrt (Fin x) = (if x < 0 then NaN else Fin (sqrt x))"
| "fsqrt NZero = NZero"
| "fsqrt PInf = PInf"
| "fsqrt NInf = NaN"
| "fsqrt NaN = NaN"

text \<open>Comparisons: false when an operand is NaN; the two zeros are equal.\<close>

definition flt :: "fl \<Rightarrow> fl \<Rightarrow> bool" where
  "flt a b =
     (if a = NaN \<or> b = NaN then False
      else if a = PInf \<or> b = NInf then False
      else if a = NInf \<or> b = PInf then True
      else fl_val a < fl_val b)"

definition fgt :: "fl \<Rightarrow> fl \<Rightarrow> bool" where
  "fgt a b = flt b a"

definition fle :: "fl \<Rightarrow> fl \<Rightarrow> bool" where
  "fle a b =
     (if a = NaN \<or> b = NaN then False
      else if a = NInf \<or> b = PInf then True
      else if a = PInf \<or> b = NInf then False
      else fl_val a \<le> fl_val b)"

section \<open>Series operations of pandas\<close>

text \<open>
  The \<^verbatim>\<open>close\<close> and \<^verbatim>\<open>volume\<close> columns hold the finite numbers of the candles and
  are lists of reals; a series computed from them can hold NaN and infinities and is a
  list of \<open>fl\<close>. Only the behaviour on such inputs is modelled.

  \<open>iloc xs i\<close> is \<^verbatim>\<open>xs.iloc[i]\<close>: a negative position counts from the end, a position
  outside the series raises \<^verbatim>\<open>IndexError\<close>.
\<close>

definition iloc :: "'a list \<Rightarrow> int \<Rightarrow> exn + 'a" where
  "iloc xs i =
     (if 0 \<le> i \<and> i < int (length xs) then Inr (xs ! nat i)
      else if i < 0 \<and> - i \<le> int (length xs) then Inr (xs ! nat (int (length xs) + i))
      else Inl IndexError)"

text \<open>\<^verbatim>\<open>series.diff()\<close>: NaN first, then each value minus the one before.\<close>

fun diff :: "real list \<Rightarrow> fl list" where
  "diff [] = []"
| "diff (x # xs) = NaN # map (\<lambda>(cur, prev). fsub (Fin cur) (Fin prev)) (zip xs (x # xs))"

text \<open>\<^verbatim>\<open>s.where(cond, other)\<close>: the value where the condition holds, \<open>other\<close>
  elsewhere.\<close>

definition series_where :: "(fl \<Rightarrow> bool) \<Rightarrow> fl \<Rightarrow> fl list \<Rightarrow> fl list" where
  "series_where cond other s = map (\<lambda>x. if cond x then x else other) s"

text \<open>
  \<^verbatim>\<open>s.ewm(alpha=a, adjust=False).mean()\<close> on a series without NaN:
  \<open>y\<^sub>0 = x\<^sub>0\<close> and \<open>y\<^sub>t = (1 - a) * y\<^sub>t\<^sub>-\<^sub>1 + a * x\<^sub>t\<close>.
\<close>

fun ewm_from :: "real \<Rightarrow> fl \<Rightarrow> fl list \<Rightarrow> fl list" where
  "ewm_from a y [] = []"
| "ewm_from a y (x # xs) =
     (let y' = fadd (fmul (Fin (1 - a)) y) (fmul (Fin a) x) in y' # ewm_from a y' xs)"

fun ewm_mean :: "real \<Rightarrow> fl list \<Rightarrow> fl list" where
  "ewm_mean a [] = []"
| "ewm_mean a (x # xs) = x # ewm_from a x xs"

text \<open>\<^verbatim>\<open>series.pct_change()\<close>: NaN first, then each value divided by the one before,
  minus 1.\<close>

fun pct_change :: "real list \<Rightarrow> fl list" where
  "pct_change [] = []"
| "pct_change (x # xs) =
     NaN # map (\<lambda>(cur, prev). fsub (fdiv (Fin cur) (Fin prev)) (Fin 1)) (zip xs (x # xs))"

text \<open>
  \<^verbatim>\<open>s.sum()\<close> of a series, and \<^verbatim>\<open>s.std()\<close>: the sample standard deviation
  (\<^verbatim>\<open>ddof=1\<close>) of the entries that are not NaN, NaN when fewer than two are left.
\<close>

definition fsum :: "fl list \<Rightarrow> fl" where
  "fsum xs = foldl fadd (Fin 0) xs"

definition std :: "fl list \<Rightarrow> fl" where
  "std s =
     (let vs = filter (\<lambda>x. x \<noteq> NaN) s; n = length vs in
      if n \<le> 1 then NaN
      else
        (let avg = fdiv (fsum vs) (Fin (real n));
             sqr = map (\<lambda>v. fmul (fsub avg v) (fsub avg v)) vs
         in fsqrt (fdiv (fsum sqr) (Fin (real (n - 1))))))"

text \<open>\<^verbatim>\<open>s.tail(k)\<close>, and \<^verbatim>\<open>s.sum()\<close> of a column of finite numbers.\<close>

definition tail :: "nat \<Rightarrow> 'a list \<Rightarrow> 'a list" where
  "tail k xs = drop (length xs - k) xs"

definition series_sum :: "real list \<Rightarrow> fl" where
  "series_sum xs = Fin (sum_list xs)"

text \<open>
  \<^verbatim>\<open>s.rolling(w).min()\<close> and \<^verbatim>\<open>s.rolling(w).max()\<close>: at position \<open>i\<close> the minimum
  (maximum) of the \<open>w\<close> values ending at \<open>i\<close>, NaN while fewer than \<open>w\<close> values are
  there.
\<close>

definition rolling_min :: "nat \<Rightarrow> real list \<Rightarrow> fl list" where
  "rolling_min w xs =
     map (\<lambda>i. if i + 1 < w \<or> w = 0 then NaN else Fin (Min (set (take w (drop (i + 1 - w) xs)))))
       [0..<length xs]"

definition rolling_max :: "nat \<Rightarrow> real list \<Rightarrow> fl list" where
  "rolling_max w xs =
     map (\<lambda>i. if i + 1 < w \<or> w = 0 then NaN else Fin (Max (set (take w (drop (i + 1 - w) xs)))))
       [0..<length xs]"

section \<open>vectorized_rsi\<close>

text \<open>
  \<^verbatim>\<open>
  def vectorized_rsi(series, period=14):
      delta = series.diff()
      gain = delta.where(delta > 0, 0)
      loss = -delta.where(delta < 0, 0)
      avg_gain = gain.ewm(alpha=1/period, adjust=False).mean()
      avg_loss = loss.ewm(alpha=1/period, adjust=False).mean()
      rs = avg_gain / avg_loss
      return 100 - (100 / (1 + rs))
  \<close>
  One definition per local variable.
\<close>

definition rsi_gain :: "real list \<Rightarrow> fl list" where
  "rsi_gain series = series_where (\<lambda>d. fgt d (Fin 0)) (Fin 0) (diff series)"

definition rsi_loss :: "real list \<Rightarrow> fl list" where
  "rsi_loss series = map fneg (series_where (\<lambda>d. flt d (Fin 0)) (Fin 0) (diff series))"

definition rsi_avg_gain :: "real list \<Rightarrow> nat \<Rightarrow> fl list" where
  "rsi_avg_gain series period = ewm_mean (1 / real period) (rsi_gain series)"

definition rsi_avg_loss :: "real list \<Rightarrow> nat \<Rightarrow> fl list" where
  "rsi_avg_loss series period = ewm_mean (1 / real period) (rsi_loss series)"

definition rsi_rs :: "real list \<Rightarrow> nat \<Rightarrow> fl list" where
  "rsi_rs series period =
     map (\<lambda>(g, l). fdiv g l) (zip (rsi_avg_gain series period) (rsi_avg_loss series period))"

definition vectorized_rsi :: "real list \<Rightarrow> nat \<Rightarrow> fl list" where
  "vectorized_rsi series period =
     map (\<lambda>rs. fsub (Fin 100) (fdiv (Fin 100) (fadd (Fin 1) rs))) (rsi_rs series period)"

section \<open>analyze_symbol\<close>

text \<open>\<^verbatim>\<open>s.replace(old, new)\<close> for a non-empty \<open>old\<close>: the occurrences of \<open>old\<close> are
  replaced from left to right, without overlap. \<open>skip\<close> counts the characters of an
  occurrence still to be dropped.\<close>

fun replace_from :: "string \<Rightarrow> string \<Rightarrow> nat \<Rightarrow> string \<Rightarrow> string" where
  "replace_from old new skip [] = []"
| "replace_from old new skip (c # cs) =
     (if skip > 0 then replace_from old new (skip - 1) cs
      else if old \<noteq> [] \<and> take (length old) (c # cs) = old
        then new @ replace_from old new (length old - 1) cs
      else c # replace_from old new 0 cs)"

definition str_replace :: "string \<Rightarrow> string \<Rightarrow> string \<Rightarrow> string" where
  "str_replace s old new = replace_from old new 0 s"

text \<open>The dictionary that \<^verbatim>\<open>analyze_symbol\<close> returns; \<open>result_symbol\<close> is its
  \<^verbatim>\<open>'symbol'\<close> entry.\<close>

record analysis =
  result_symbol :: string
  price :: fl
  rsi :: fl
  change_24h :: fl
  change_7d :: fl
  volatility :: fl
  volume_24h :: fl
  support :: fl
  resistance :: fl
  vwap :: fl

text \<open>\<^verbatim>\<open>(a - b) / b * 100\<close> on two values read from the \<^verbatim>\<open>close\<close> column.\<close>

definition percent_change :: "real \<Rightarrow> real \<Rightarrow> fl" where
  "percent_change a b = fmul (fdiv (fsub (Fin a) (Fin b)) (Fin b)) (Fin 100)"

text \<open>
  The part of \<^verbatim>\<open>analyze_symbol\<close> from the data frame to the returned dictionary:
  \<^verbatim>\<open>
  closes = df['close']
  volumes = df['volume']
  return {
      'symbol': symbol.replace('/USDT', ''),
      'price': closes.iloc[-1],
      'rsi': vectorized_rsi(closes).iloc[-1],
      'change_24h': (closes.iloc[-1] - closes.iloc[-24]) / closes.iloc[-24] * 100,
      'change_7d': (closes.iloc[-1] - closes.iloc[-42*4]) / closes.iloc[-42*4] * 100,
      'volatility': closes.pct_change().std() * np.sqrt(365),
      'volume_24h': volumes.tail(24).sum(),
      'support': closes.rolling(24).min().iloc[-1],
      'resistance': closes.rolling(24).max().iloc[-1],
      'vwap': (closes * volumes).sum() / volumes.sum()
  }
  \<close>
  Each \<^verbatim>\<open>iloc\<close> can raise \<^verbatim>\<open>IndexError\<close>; the first one that does ends the
  computation.
\<close>

definition analysis_of :: "string \<Rightarrow> candle list \<Rightarrow> exn + analysis" where
  "analysis_of name ohlcv =
     (let closes = map close ohlcv; volumes = map volume ohlcv in
      case iloc closes (- 1) of Inl e \<Rightarrow> Inl e | Inr last_close \<Rightarrow>
      case iloc (vectorized_rsi closes 14) (- 1) of Inl e \<Rightarrow> Inl e | Inr last_rsi \<Rightarrow>
      case iloc closes (- 24) of Inl e \<Rightarrow> Inl e | Inr close_24 \<Rightarrow>
      case iloc closes (- (42 * 4)) of Inl e \<Rightarrow> Inl e | Inr close_168 \<Rightarrow>
      case iloc (rolling_min 24 closes) (- 1) of Inl e \<Rightarrow> Inl e | Inr last_min \<Rightarrow>
      case iloc (rolling_max 24 closes) (- 1) of Inl e \<Rightarrow> Inl e | Inr last_max \<Rightarrow>
      Inr \<lparr>result_symbol = str_replace name ''/USDT'' '''',
           price = Fin last_close,
           rsi = last_rsi,
           change_24h = percent_change last_close close_24,
           change_7d = percent_change last_close close_168,
           volatility = fmul (std (pct_change closes)) (Fin (sqrt 365)),
           volume_24h = series_sum (tail 24 volumes),
           support = last_min,
           resistance = last_max,
           vwap = fdiv (series_sum (map (\<lambda>(c, v). c * v) (zip closes volumes)))
                    (series_sum volumes)\<rparr>)"

text \<open>
  \<^verbatim>\<open>
  def analyze_symbol(symbol):
      try:
          ohlcv = fetch_with_retry(lambda: exchange.fetch_ohlcv(symbol, TIMEFRAME, limit=168))
          if len(ohlcv) < 50:
              return None
          ...
      except Exception as e:
          print(f"Analysis failed for {symbol}: {e}")
          return None
  \<close>
  \<open>analyze_symbol_try\<close> is the body of the \<^verbatim>\<open>try\<close>; \<^verbatim>\<open>len(None)\<close> raises
  \<^verbatim>\<open>TypeError\<close>. \<open>analyze_symbol\<close> adds the handler.
\<close>

definition analyze_symbol_try ::
  "'w exchange \<Rightarrow> string \<Rightarrow> 'w \<Rightarrow> (exn + analysis option) \<times> 'w"
where
  "analyze_symbol_try ex name w =
     (case fetch_with_retry (fetch_ohlcv ex name) 3 1 w of
        (Inl e, w', tr) \<Rightarrow> (Inl e, w')
      | (Inr None, w', tr) \<Rightarrow> (Inl TypeError, w')
      | (Inr (Some ohlcv), w', tr) \<Rightarrow>
          if length ohlcv < 50 then (Inr None, w')
          else (case analysis_of name ohlcv of
                  Inl e \<Rightarrow> (Inl e, w')
                | Inr a \<Rightarrow> (Inr (Some a), w')))"

definition analyze_symbol ::
  "'w exchange \<Rightarrow> string \<Rightarrow> 'w \<Rightarrow> (exn + analysis option) \<times> 'w"
where
  "analyze_symbol ex name w =
     (case analyze_symbol_try ex name w of
        (Inl e, w') \<Rightarrow> (Inr None, w')
      | (Inr r, w') \<Rightarrow> (Inr r, w'))"

section \<open>update_dashboard\<close>

text \<open>
  \<^verbatim>\<open>
  def update_dashboard(_):
      symbols = get_active_symbols()
      with ThreadPoolExecutor(max_workers=MAX_WORKERS) as executor:
          results = list(executor.map(analyze_symbol, symbols))
      valid_data = [r for r in results if r is not None]
      update_time = datetime.utcnow().strftime('%H:%M:%S UTC')
      return create_dashboard(valid_data), update_time
  \<close>
  \<^verbatim>\<open>executor.map\<close> runs one call per symbol and yields the results in the order of the
  symbols; \<^verbatim>\<open>list\<close> raises the first exception among them. The calls are modelled in
  that order, one after the other, on the state of the provider; the interleaving of the
  worker threads is not modelled. The model returns \<^verbatim>\<open>valid_data\<close>, the list handed
  to the presentation.
\<close>

fun executor_map :: "('a \<Rightarrow> 'w \<Rightarrow> (exn + 'b) \<times> 'w) \<Rightarrow> 'a list \<Rightarrow> 'w \<Rightarrow> (exn + 'b) list \<times> 'w" where
  "executor_map f [] w = ([], w)"
| "executor_map f (x # xs) w =
     (case f x w of (r, w') \<Rightarrow>
        (case executor_map f xs w' of (rs, w'') \<Rightarrow> (r # rs, w'')))"

fun list_results :: "(exn + 'b) list \<Rightarrow> exn + 'b list" where
  "list_results [] = Inr []"
| "list_results (Inl e # rs) = Inl e"
| "list_results (Inr v # rs) = (case list_results rs of Inl e \<Rightarrow> Inl e | Inr vs \<Rightarrow> Inr (v # vs))"

definition valid_data :: "'w exchange \<Rightarrow> string list \<Rightarrow> 'w \<Rightarrow> (exn + analysis option list) \<times> 'w" where
  "valid_data ex symbols w =
     (case executor_map (analyze_symbol ex) symbols w of (rs, w') \<Rightarrow>
        (case list_results rs of
           Inl e \<Rightarrow> (Inl e, w')
         | Inr results \<Rightarrow> (Inr (filter (\<lambda>r. r \<noteq> None) results), w')))"

definition update_dashboard :: "'w exchange \<Rightarrow> 'w \<Rightarrow> (exn + analysis option list) \<times> 'w" where
  "update_dashboard ex w =
     (case get_active_symbols ex w of
        (Inl e, w') \<Rightarrow> (Inl e, w')
      | (Inr symbols, w') \<Rightarrow> valid_data ex symbols w')"

section \<open>Auxiliary notions for the statements\<close>


text \<open>A series is flat when all its values are equal.\<close>

definition flat :: "real list \<Rightarrow> bool" where
  "flat xs = (\<forall>x \<in> set xs. x = hd xs)"

text \<open>
  The same computations over the reals, to state what the floating-point series hold:
  the differences of consecutive values, the gains and losses read from them, and the
  recurrence of the exponentially weighted mean. \<open>nzero x\<close> is the value \<open>x \<ge> 0\<close> as the
  negation \<^verbatim>\<open>-(...)\<close> produces it: a zero comes out as \<^verbatim>\<open>-0.0\<close>.
\<close>

definition deltas :: "real list \<Rightarrow> real list" where
  "deltas xs = map (\<lambda>(cur, prev). cur - prev) (zip (tl xs) xs)"

definition gains :: "real list \<Rightarrow> real list" where
  "gains xs = 0 # map (\<lambda>d. max d 0) (deltas xs)"

definition losses :: "real list \<Rightarrow> real list" where
  "losses xs = 0 # map (\<lambda>d. max (- d) 0) (deltas xs)"

fun ewm_real_from :: "real \<Rightarrow> real \<Rightarrow> real list \<Rightarrow> real list" where
  "ewm_real_from a y [] = []"
| "ewm_real_from a y (x # xs) = ((1 - a) * y + a * x) # ewm_real_from a ((1 - a) * y + a * x) xs"

fun ewm_real :: "real \<Rightarrow> real list \<Rightarrow> real list" where
  "ewm_real a [] = []"
| "ewm_real a (x # xs) = x # ewm_real_from a x xs"

definition nzero :: "real \<Rightarrow> fl" where
  "nzero x = (if x = 0 then NZero else Fin x)"

text \<open>The smoothed average gain and loss at the latest index, as real numbers.\<close>

definition last_avg_gain :: "real list \<Rightarrow> real" where
  "last_avg_gain closes = last (ewm_real (1 / 14) (gains closes))"

definition last_avg_loss :: "real list \<Rightarrow> real" where
  "last_avg_loss closes = last (ewm_real (1 / 14) (losses closes))"

section \<open>Sample data\<close>

text \<open>
  A small provider for concrete runs. Its directory lists six markets, one of them
  inactive; its tickers come in an order that is not the order of their volume. The world
  state counts the calls made. Candles are served for two symbols, 168 rows for
  \<^verbatim>\<open>BTC/USDT\<close> and 10 rows for \<^verbatim>\<open>ETH/USDT\<close>; for any other symbol the call raises
  \<^verbatim>\<open>ValueError\<close>, an error outside the retried classes.
\<close>

definition sample_markets :: "string \<Rightarrow> market option" where
  "sample_markets = map_of
     [(''BTC/USDT'', \<lparr>active = True\<rparr>),
      (''ETH/USDT'', \<lparr>active = True\<rparr>),
      (''SOL/USDT'', \<lparr>active = True\<rparr>),
      (''OLD/USDT'', \<lparr>active = False\<rparr>),
      (''DOGE/USDT'', \<lparr>active = True\<rparr>),
      (''ETH/BTC'', \<lparr>active = True\<rparr>)]"

definition sample_tickers :: "ticker list" where
  "sample_tickers =
     [\<lparr>symbol = ''ETH/USDT'', quoteVolume = Num 4000000\<rparr>,
      \<lparr>symbol = ''ETH/BTC'', quoteVolume = Num 9000000\<rparr>,
      \<lparr>symbol = ''OLD/USDT'', quoteVolume = Num 8000000\<rparr>,
      \<lparr>symbol = ''SOL/USDT'', quoteVolume = Num 3000000\<rparr>,
      \<lparr>symbol = ''DOGE/USDT'', quoteVolume = Absent\<rparr>,
      \<lparr>symbol = ''BTC/USDT'', quoteVolume = Num 5000000\<rparr>]"

definition sample_candle :: candle where
  "sample_candle =
     \<lparr>timestamp = 0, open_price = 100, high = 101, low = 99, close = 100, volume = 5\<rparr>"

definition sample_exchange :: "nat exchange" where
  "sample_exchange =
     \<lparr>load_markets = (\<lambda>w. (Inr sample_markets, Suc w)),
      fetch_tickers = (\<lambda>w. (Inr sample_tickers, Suc w)),
      fetch_ohlcv = (\<lambda>s w.
        if s = ''BTC/USDT'' then (Inr (replicate 168 sample_candle), Suc w)
        else if s = ''ETH/USDT'' then (Inr (replicate 10 sample_candle), Suc w)
        else (Inl ValueError, Suc w))\<rparr>"

text \<open>The same provider with the network down for the directory, and with a ticker whose
  \<^verbatim>\<open>quoteVolume\<close> is \<^verbatim>\<open>None\<close>.\<close>

definition offline_exchange :: "nat exchange" where
  "offline_exchange = sample_exchange\<lparr>load_markets := (\<lambda>w. (Inl NetworkError, Suc w))\<rparr>"

definition null_volume_exchange :: "nat exchange" where
  "null_volume_exchange = sample_exchange
     \<lparr>fetch_tickers := (\<lambda>w. (Inr (sample_tickers @
        [\<lparr>symbol = ''SOL/USDT'', quoteVolume = PyNone\<rparr>]), Suc w))\<rparr>"

text \<open>A candle with all prices equal to \<open>c\<close>; and a series of 168 candles that closes at 100
  except for the latest, which closes at 110.\<close>

definition flat_candle :: "real \<Rightarrow> candle" where
  "flat_candle c =
     \<lparr>timestamp = 0, open_price = c, high = c, low = c, close = c, volume = 1\<rparr>"


section \<open>Properties of fetch_with_retry\<close>

lemma method_transient:
  assumes "always_transient method"
  obtains e w' where "method w = (Inl e, w')" "is_transient e"
proof -
  obtain r w' where m: "method w = (r, w')" by (cases "method w")
  from assms have "case fst (method w) of Inl e \<Rightarrow> is_transient e | Inr v \<Rightarrow> False"
    unfolding always_transient_def by blast
  with m obtain e where "r = Inl e" "is_transient e" by (cases r) auto
  with m that show thesis by blast
qed

lemma after_calls_Suc: "after_calls method (Suc k) w = after_calls method k (snd (method w))"
  unfolding after_calls_def by (simp only: funpow_Suc_right o_apply)

lemma after_calls_0: "after_calls method 0 w = w"
  by (simp add: after_calls_def)

lemma backoff_trace_last: "n \<le> k \<Longrightarrow> backoff_trace delay k n = [Invoke]"
  by (simp add: backoff_trace_def)

lemma backoff_trace_step:
  "k < n \<Longrightarrow> backoff_trace delay k n = Invoke # Sleep (delay * k) # backoff_trace delay (k + 1) n"
  by (simp add: backoff_trace_def upto_rec1 [of k "n - 1"])

lemma invocations_backoff_trace:
  "m = nat (n - k) \<Longrightarrow> invocations (backoff_trace delay k n) = Suc m"
proof (induction m arbitrary: k)
  case 0
  then show ?case by (simp add: backoff_trace_last invocations_def)
next
  case (Suc m)
  then have "k < n" and "m = nat (n - (k + 1))" by simp_all
  with Suc.IH [of "k + 1"] show ?case
    by (simp add: backoff_trace_step invocations_def)
qed

lemma sleeps_backoff_trace:
  "m = nat (n - k) \<Longrightarrow> sleeps (backoff_trace delay k n) = map (\<lambda>j. delay * j) [k..n - 1]"
proof (induction m arbitrary: k)
  case 0
  then show ?case by (simp add: backoff_trace_last)
next
  case (Suc m)
  then have "k < n" and "m = nat (n - (k + 1))" by simp_all
  with Suc.IH [of "k + 1"] show ?case
    by (simp add: backoff_trace_step upto_rec1 [of k "n - 1"])
qed

lemma transient_not_ProviderUnavailable: "is_transient e \<Longrightarrow> \<not> is_ProviderUnavailable e"
  by (cases e) simp_all

text \<open>The loop from index \<open>k\<close> on, when every call fails with a retried error: the
  operation is called for each remaining index, with a sleep of \<open>delay * (i + 1)\<close> after
  the failure at index \<open>i\<close>, and the error of the last call is raised as it is.\<close>

lemma retry_loop_exhaust:
  assumes tr: "always_transient method" and d: "0 \<le> delay"
  shows "m = nat (n - 1 - k) \<Longrightarrow> 0 \<le> k \<Longrightarrow> k < n \<Longrightarrow>
    \<exists>e. fst (method (after_calls method m w)) = Inl e \<and> is_transient e \<and>
      retry_loop method n delay [k..n - 1] w =
        (Inl e, after_calls method (Suc m) w, backoff_trace delay (k + 1) n)"
proof (induction m arbitrary: k w)
  case 0
  then have k: "k = n - 1" by simp
  obtain e w' where m: "method w = (Inl e, w')" "is_transient e"
    using tr by (rule method_transient)
  have "[k..n - 1] = [k]" using k by (simp add: upto_rec1)
  then show ?case using m k
    by (simp add: after_calls_0 after_calls_Suc backoff_trace_last)
next
  case (Suc m)
  then have k: "k < n - 1" "0 \<le> k" by simp_all
  obtain e w' where m: "method w = (Inl e, w')" "is_transient e"
    using tr by (rule method_transient)
  have up: "[k..n - 1] = k # [k + 1..n - 1]" using k by (simp add: upto_rec1)
  have "m = nat (n - 1 - (k + 1))" using Suc.prems by simp
  from Suc.IH [OF this, of w'] k
  obtain e' where ih: "fst (method (after_calls method m w')) = Inl e'" "is_transient e'"
    "retry_loop method n delay [k + 1..n - 1] w' =
        (Inl e', after_calls method (Suc m) w', backoff_trace delay (k + 1 + 1) n)"
    by auto
  have nonneg: "\<not> delay * (k + 1) < 0" using d k by (simp add: not_less)
  have bt: "backoff_trace delay (k + 1) n =
      Invoke # Sleep (delay * (k + 1)) # backoff_trace delay (k + 1 + 1) n"
    using k by (intro backoff_trace_step) simp
  show ?case
    unfolding up using m k ih nonneg bt
    by (simp add: after_calls_Suc)
qed

lemma fetch_with_retry_exhaust:
  assumes "always_transient method" and "0 \<le> delay" and "1 \<le> max_retries"
  shows "\<exists>e. fst (method (after_calls method (nat (max_retries - 1)) w)) = Inl e \<and>
      is_transient e \<and>
      fetch_with_retry method max_retries delay w =
        (Inl e, after_calls method (nat max_retries) w, backoff_trace delay 1 max_retries)"
proof -
  have s: "Suc (nat (max_retries - 1)) = nat max_retries" using assms(3) by simp
  from retry_loop_exhaust [OF assms(1,2), of "nat (max_retries - 1)" max_retries 0 w] assms(3)
  show ?thesis
    unfolding fetch_with_retry_def py_range_def s by simp
qed

lemma fetch_with_retry_first_call:
  assumes "1 \<le> max_retries" and "method w = (Inl e, w')" and "\<not> is_transient e"
  shows "fetch_with_retry method max_retries delay w = (Inl e, w', [Invoke])"
proof -
  have "[0..max_retries - 1] = 0 # [0 + 1..max_retries - 1]"
    using assms(1) by (simp add: upto_rec1)
  then show ?thesis
    using assms(2,3) by (simp add: fetch_with_retry_def py_range_def)
qed

lemma fetch_with_retry_success:
  assumes "1 \<le> max_retries" and "method w = (Inr v, w')"
  shows "fetch_with_retry method max_retries delay w = (Inr (Some v), w', [Invoke])"
proof -
  have "[0..max_retries - 1] = 0 # [0 + 1..max_retries - 1]"
    using assms(1) by (simp add: upto_rec1)
  then show ?thesis
    using assms(2) by (simp add: fetch_with_retry_def py_range_def)
qed

lemma fetch_with_retry_no_attempt:
  "max_retries \<le> 0 \<Longrightarrow> fetch_with_retry method max_retries delay w = (Inr None, w, [])"
  by (simp add: fetch_with_retry_def py_range_def)

lemma always_network_error_transient: "always_transient always_network_error"
  by (simp add: always_transient_def always_network_error_def)

lemma after_calls_always_network_error: "after_calls always_network_error k w = k + w"
  by (induction k arbitrary: w) (simp_all add: after_calls_0 after_calls_Suc always_network_error_def)

text \<open>
  Claim C1, as the code has it. When every call of the operation fails with a retried
  error, \<open>delay\<close> is not negative and \<open>max_retries\<close> is at least 1, the operation is
  called exactly \<open>max_retries\<close> times (the world is the one after \<open>max_retries\<close> calls, the
  trace holds \<open>max_retries\<close> invocations), with a sleep of \<open>delay * k\<close> after the \<open>k\<close>-th
  failed attempt for \<open>k = 1, \<dots>, max_retries - 1\<close>, and the function then raises the
  error of the last call itself: a retried error, not a \<open>ProviderUnavailable\<close>. When the
  first call fails with an error that is not retried, that error is raised after this
  single call, with no sleep. With \<open>max_retries \<le> 0\<close> the operation is never called and
  the function returns \<^verbatim>\<open>None\<close>.
\<close>

theorem fetch_with_retry_reraises_last_error:
  "(1 \<le> max_retries \<and> 0 \<le> delay \<and> always_transient method \<longrightarrow>
      (\<exists>e. fst (method (after_calls method (nat (max_retries - 1)) w)) = Inl e \<and>
        is_transient e \<and> \<not> is_ProviderUnavailable e \<and>
        fetch_with_retry method max_retries delay w =
          (Inl e, after_calls method (nat max_retries) w, backoff_trace delay 1 max_retries) \<and>
        invocations (backoff_trace delay 1 max_retries) = nat max_retries \<and>
        sleeps (backoff_trace delay 1 max_retries) =
          map (\<lambda>k. delay * k) [1..max_retries - 1])) \<and>
   (1 \<le> max_retries \<and> method w = (Inl e', w') \<and> \<not> is_transient e' \<longrightarrow>
      fetch_with_retry method max_retries delay w = (Inl e', w', [Invoke])) \<and>
   (max_retries \<le> 0 \<longrightarrow>
      fetch_with_retry method max_retries delay w = (Inr None, w, []))"
proof (intro conjI impI)
  assume a: "1 \<le> max_retries \<and> 0 \<le> delay \<and> always_transient method"
  then have m: "nat (max_retries - 1) = nat (max_retries - 1)" "1 \<le> max_retries" by simp_all
  from a fetch_with_retry_exhaust [of _ delay max_retries w]
  obtain e where e: "fst (method (after_calls method (nat (max_retries - 1)) w)) = Inl e"
    "is_transient e"
    "fetch_with_retry method max_retries delay w =
        (Inl e, after_calls method (nat max_retries) w, backoff_trace delay 1 max_retries)"
    by blast
  have i: "invocations (backoff_trace delay 1 max_retries) = nat max_retries"
    using invocations_backoff_trace [of "nat (max_retries - 1)" max_retries 1 delay] m(2)
    by simp
  have s: "sleeps (backoff_trace delay 1 max_retries) = map (\<lambda>k. delay * k) [1..max_retries - 1]"
    using sleeps_backoff_trace [of "nat (max_retries - 1)" max_retries 1 delay] by simp
  from e i s transient_not_ProviderUnavailable [OF e(2)]
  show "\<exists>e. fst (method (after_calls method (nat (max_retries - 1)) w)) = Inl e \<and>
        is_transient e \<and> \<not> is_ProviderUnavailable e \<and>
        fetch_with_retry method max_retries delay w =
          (Inl e, after_calls method (nat max_retries) w, backoff_trace delay 1 max_retries) \<and>
        invocations (backoff_trace delay 1 max_retries) = nat max_retries \<and>
        sleeps (backoff_trace delay 1 max_retries) =
          map (\<lambda>k. delay * k) [1..max_retries - 1]"
    by blast
next
  assume "1 \<le> max_retries \<and> method w = (Inl e', w') \<and> \<not> is_transient e'"
  then show "fetch_with_retry method max_retries delay w = (Inl e', w', [Invoke])"
    by (simp add: fetch_with_retry_first_call)
next
  assume "max_retries \<le> 0"
  then show "fetch_with_retry method max_retries delay w = (Inr None, w, [])"
    by (rule fetch_with_retry_no_attempt)
qed

theorem fetch_with_retry_reraises_last_error_witness:
  "(1::int) \<le> 3 \<and> (0::int) \<le> 1 \<and> always_transient always_network_error \<and>
   fetch_with_retry always_network_error 3 1 0 =
     (Inl NetworkError, 3, [Invoke, Sleep 1, Invoke, Sleep 2, Invoke]) \<and>
   always_key_error 0 = (Inl KeyError, 1) \<and> \<not> is_transient KeyError \<and>
   fetch_with_retry always_key_error 3 1 0 = (Inl KeyError, 1, [Invoke]) \<and>
   (0::int) \<le> 0 \<and>
   fetch_with_retry always_key_error 0 1 0 = (Inr None, 0, [])"
proof -
  have t: "always_transient always_network_error" by (rule always_network_error_transient)
  have b: "backoff_trace 1 1 3 = [Invoke, Sleep 1, Invoke, Sleep 2, Invoke]"
    by (simp add: backoff_trace_def upto_rec1)
  have k: "always_key_error 0 = (Inl KeyError, 1)" by (simp add: always_key_error_def)
  from fetch_with_retry_reraises_last_error [of 3 1 always_network_error 0 KeyError 0] t
  have 1: "fetch_with_retry always_network_error 3 1 0 =
     (Inl NetworkError, 3, [Invoke, Sleep 1, Invoke, Sleep 2, Invoke])"
    by (auto simp add: after_calls_always_network_error b always_network_error_def)
  from fetch_with_retry_reraises_last_error [of 3 1 always_key_error 0 KeyError 1] k
  have 2: "fetch_with_retry always_key_error 3 1 0 = (Inl KeyError, 1, [Invoke])"
    by simp
  from fetch_with_retry_reraises_last_error [of 0 1 always_key_error 0 KeyError 1]
  have 3: "fetch_with_retry always_key_error 0 1 0 = (Inr None, 0, [])"
    by simp
  from t k 1 2 3 show ?thesis by simp
qed

text \<open>
  Claim C1 as the specification words it fails at \<open>max_retries = 3\<close>, \<open>delay = 1\<close> and
  an operation that always raises \<^verbatim>\<open>NetworkError\<close>: after three calls and sleeps of 1
  and 2 the function raises the \<^verbatim>\<open>NetworkError\<close> itself, which is no
  \<open>ProviderUnavailable\<close>; at \<open>max_retries = 0\<close> it raises nothing and returns
  \<^verbatim>\<open>None\<close> without a call; and at \<open>delay = - 1\<close> the first \<^verbatim>\<open>time.sleep\<close> raises
  \<^verbatim>\<open>ValueError\<close> after a single call.
\<close>

theorem fetch_with_retry_ProviderUnavailable_counterexample:
  "fetch_with_retry always_network_error 3 1 0 =
     (Inl NetworkError, 3, [Invoke, Sleep 1, Invoke, Sleep 2, Invoke]) \<and>
   \<not> is_ProviderUnavailable NetworkError \<and>
   fetch_with_retry always_network_error 0 1 0 = (Inr None, 0, []) \<and>
   fetch_with_retry always_network_error 3 (- 1) 0 = (Inl ValueError, 1, [Invoke])"
  by (simp add: fetch_with_retry_def py_range_def upto_rec1 always_network_error_def)

section \<open>Properties of get_active_symbols\<close>

lemma usdt_tickers_Inr:
  "usdt_tickers markets ts = Inr r \<Longrightarrow> t \<in> set r \<Longrightarrow>
     t \<in> set ts \<and> endswith (symbol t) ''/USDT'' \<and>
     (\<exists>m mk. markets = Some m \<and> m (symbol t) = Some mk \<and> active mk)"
proof (induction ts arbitrary: r)
  case Nil
  then show ?case by simp
next
  case (Cons a ts)
  show ?case
  proof (cases "endswith (symbol a) ''/USDT''")
    case False
    with Cons.prems have "usdt_tickers markets ts = Inr r" by simp
    from Cons.IH [OF this Cons.prems(2)] show ?thesis by simp
  next
    case True
    with Cons.prems(1) obtain m mk r' where
      m: "markets = Some m" "m (symbol a) = Some mk" "usdt_tickers markets ts = Inr r'"
        "r = (if active mk then a # r' else r')"
      by (auto split: option.splits sum.splits)
    show ?thesis
    proof (cases "t \<in> set r'")
      case True
      from Cons.IH [OF m(3) this] show ?thesis by simp
    next
      case False
      with Cons.prems(2) m(4) have "t = a" "active mk" by (auto split: if_splits)
      with True m show ?thesis by simp
    qed
  qed
qed

lemma volume_above_min_Num:
  "volume_above_min ts = Inr r \<Longrightarrow> t \<in> set r \<Longrightarrow>
     t \<in> set ts \<and> (\<exists>v. quoteVolume t = Num v \<and> MIN_VOLUME < v)"
proof (induction ts arbitrary: r)
  case Nil
  then show ?case by simp
next
  case (Cons a ts)
  have pos: "\<not> 0 > MIN_VOLUME" by (simp add: MIN_VOLUME_def)
  show ?case
  proof (cases "quoteVolume a")
    case Absent
    with Cons.prems pos have "volume_above_min ts = Inr r" by simp
    from Cons.IH [OF this Cons.prems(2)] show ?thesis by simp
  next
    case PyNone
    with Cons.prems show ?thesis by simp
  next
    case (Num v)
    show ?thesis
    proof (cases "v > MIN_VOLUME")
      case False
      with Num Cons.prems have "volume_above_min ts = Inr r" by simp
      from Cons.IH [OF this Cons.prems(2)] show ?thesis by simp
    next
      case True
      with Num Cons.prems(1) obtain r' where
        r': "volume_above_min ts = Inr r'" "r = a # r'"
        by (cases "volume_above_min ts") auto
      show ?thesis
      proof (cases "t = a")
        case True
        with Num \<open>v > MIN_VOLUME\<close> show ?thesis by simp
      next
        case False
        with Cons.prems(2) r' have "t \<in> set r'" by simp
        from Cons.IH [OF r'(1) this] show ?thesis by simp
      qed
    qed
  qed
qed

lemma set_sorted_reverse: "set (sorted_reverse key xs) = set xs"
  by (simp add: sorted_reverse_def)

lemma sorted_reverse_descending:
  "sorted_wrt (\<lambda>a b. key a \<ge> key b) (sorted_reverse key xs)"
proof -
  have "sorted (map key (sort_key key (rev xs)))" by (rule sorted_sort_key)
  then have "sorted_wrt (\<lambda>a b. key a \<le> key b) (sort_key key (rev xs))"
    by (simp add: sorted_map)
  then have "sorted_wrt (\<lambda>a b. key b \<le> key a) (rev (sort_key key (rev xs)))"
    by (simp add: sorted_wrt_rev)
  then show ?thesis by (simp add: sorted_reverse_def)
qed

lemma volume_filtered_Inr:
  assumes "volume_filtered markets tickers = Inr vf"
  shows "length vf \<le> SYMBOL_LIMIT"
    and "sorted_wrt (\<lambda>a b. volume_key a \<ge> volume_key b) vf"
    and "t \<in> set vf \<Longrightarrow> t \<in> set tickers \<and> endswith (symbol t) ''/USDT'' \<and>
       (\<exists>m mk. markets = Some m \<and> m (symbol t) = Some mk \<and> active mk) \<and>
       (\<exists>v. quoteVolume t = Num v \<and> MIN_VOLUME < v \<and> volume_key t = v)"
proof -
  from assms obtain usdt kept where
    u: "usdt_tickers markets tickers = Inr usdt" and
    k: "volume_above_min usdt = Inr kept" and
    vf: "vf = take SYMBOL_LIMIT (sorted_reverse volume_key kept)"
    by (auto simp add: volume_filtered_def split: sum.splits)
  show "length vf \<le> SYMBOL_LIMIT" by (simp add: vf)
  show "sorted_wrt (\<lambda>a b. volume_key a \<ge> volume_key b) vf"
    unfolding vf by (intro sorted_wrt_take sorted_reverse_descending)
  assume "t \<in> set vf"
  then have "t \<in> set kept"
    unfolding vf using set_take_subset [of SYMBOL_LIMIT "sorted_reverse volume_key kept"]
    by (auto simp add: set_sorted_reverse)
  from volume_above_min_Num [OF k this] have
    1: "t \<in> set usdt" and 2: "\<exists>v. quoteVolume t = Num v \<and> MIN_VOLUME < v" by simp_all
  from 2 have 3: "\<exists>v. quoteVolume t = Num v \<and> MIN_VOLUME < v \<and> volume_key t = v"
    by (auto simp add: volume_key_def)
  from usdt_tickers_Inr [OF u 1] 3
  show "t \<in> set tickers \<and> endswith (symbol t) ''/USDT'' \<and>
       (\<exists>m mk. markets = Some m \<and> m (symbol t) = Some mk \<and> active mk) \<and>
       (\<exists>v. quoteVolume t = Num v \<and> MIN_VOLUME < v \<and> volume_key t = v)" by simp
qed

lemma get_active_symbols_total:
  "\<exists>symbols. fst (get_active_symbols ex w) = Inr symbols"
  by (simp add: get_active_symbols_def split: prod.splits sum.splits)

lemma get_active_symbols_handler:
  "fst (get_active_symbols_try ex w) = Inl e \<Longrightarrow>
   get_active_symbols ex w = (Inr [], snd (get_active_symbols_try ex w))"
  by (cases "get_active_symbols_try ex w") (simp add: get_active_symbols_def)

lemma get_active_symbols_try_fetched:
  assumes "fetch_with_retry (load_markets ex) 3 1 w = (Inr markets, w1, tr1)"
    and "fetch_with_retry (fetch_tickers ex) 3 1 w1 = (Inr (Some tickers), w2, tr2)"
  shows "get_active_symbols_try ex w =
     (case volume_filtered markets tickers of
        Inl e \<Rightarrow> (Inl e, w2) | Inr vf \<Rightarrow> (Inr (map symbol vf), w2))"
  using assms by (simp add: get_active_symbols_try_def)

lemma get_active_symbols_fetched:
  assumes "fetch_with_retry (load_markets ex) 3 1 w = (Inr markets, w1, tr1)"
    and "fetch_with_retry (fetch_tickers ex) 3 1 w1 = (Inr (Some tickers), w2, tr2)"
  shows "get_active_symbols ex w =
     (case volume_filtered markets tickers of
        Inl e \<Rightarrow> (Inr [], w2) | Inr vf \<Rightarrow> (Inr (map symbol vf), w2))"
  using get_active_symbols_try_fetched [OF assms]
  by (simp add: get_active_symbols_def split: sum.splits)

text \<open>Runs of the sample providers.\<close>

lemma sample_volume_filtered:
  "volume_filtered (Some sample_markets) sample_tickers =
     Inr [\<lparr>symbol = ''BTC/USDT'', quoteVolume = Num 5000000\<rparr>,
          \<lparr>symbol = ''ETH/USDT'', quoteVolume = Num 4000000\<rparr>,
          \<lparr>symbol = ''SOL/USDT'', quoteVolume = Num 3000000\<rparr>]"
  by (simp add: volume_filtered_def sample_markets_def sample_tickers_def endswith_def
      MIN_VOLUME_def SYMBOL_LIMIT_def sorted_reverse_def volume_key_def)

lemma sample_load_markets:
  "fetch_with_retry (load_markets sample_exchange) 3 1 w = (Inr (Some sample_markets), Suc w, [Invoke])"
  by (rule fetch_with_retry_success) (simp_all add: sample_exchange_def)

lemma sample_fetch_tickers:
  "fetch_with_retry (fetch_tickers sample_exchange) 3 1 w = (Inr (Some sample_tickers), Suc w, [Invoke])"
  by (rule fetch_with_retry_success) (simp_all add: sample_exchange_def)

lemma sample_get_active_symbols:
  "get_active_symbols sample_exchange w = (Inr [''BTC/USDT'', ''ETH/USDT'', ''SOL/USDT''], Suc (Suc w))"
  using get_active_symbols_fetched [OF sample_load_markets sample_fetch_tickers, of w]
  by (simp add: sample_volume_filtered)

text \<open>
  Claim C5. Whatever the provider answers to the two calls (a directory \<open>markets\<close> and
  the tickers \<open>tickers\<close>), \<open>get_active_symbols\<close> returns the symbols of a list \<open>vf\<close> of
  those tickers with at most \<open>SYMBOL_LIMIT\<close> entries, in descending order of their
  \<^verbatim>\<open>quoteVolume\<close>; each of them has a symbol ending in \<^verbatim>\<open>/USDT\<close>, is marked active in
  the directory, and has a volume strictly above \<open>MIN_VOLUME\<close>.
\<close>

theorem get_active_symbols_selection:
  assumes "fetch_with_retry (load_markets ex) 3 1 w = (Inr markets, w1, tr1)"
    and "fetch_with_retry (fetch_tickers ex) 3 1 w1 = (Inr (Some tickers), w2, tr2)"
  shows "\<exists>vf. fst (get_active_symbols ex w) = Inr (map symbol vf) \<and>
      length (map symbol vf) \<le> SYMBOL_LIMIT \<and> SYMBOL_LIMIT = 100 \<and>
      sorted_wrt (\<lambda>a b. volume_key a \<ge> volume_key b) vf \<and>
      (\<forall>t \<in> set vf. t \<in> set tickers \<and> endswith (symbol t) ''/USDT'' \<and>
         (\<exists>m mk. markets = Some m \<and> m (symbol t) = Some mk \<and> active mk) \<and>
         (\<exists>v. quoteVolume t = Num v \<and> volume_key t = v \<and> MIN_VOLUME < v \<and>
            MIN_VOLUME = 2500000))"
proof (cases "volume_filtered markets tickers")
  case (Inl e)
  with get_active_symbols_fetched [OF assms]
  have "fst (get_active_symbols ex w) = Inr (map symbol [])" by simp
  then show ?thesis by (intro exI [of _ "[]"]) (simp add: SYMBOL_LIMIT_def)
next
  case (Inr vf)
  with get_active_symbols_fetched [OF assms]
  have "fst (get_active_symbols ex w) = Inr (map symbol vf)" by simp
  with volume_filtered_Inr [OF Inr] show ?thesis
    by (intro exI [of _ vf]) (simp add: SYMBOL_LIMIT_def MIN_VOLUME_def)
qed

theorem get_active_symbols_selection_witness:
  "fetch_with_retry (load_markets sample_exchange) 3 1 0 = (Inr (Some sample_markets), 1, [Invoke]) \<and>
   fetch_with_retry (fetch_tickers sample_exchange) 3 1 1 = (Inr (Some sample_tickers), 2, [Invoke]) \<and>
   fst (get_active_symbols sample_exchange 0) = Inr [''BTC/USDT'', ''ETH/USDT'', ''SOL/USDT''] \<and>
   (\<exists>vf. map symbol vf = [''BTC/USDT'', ''ETH/USDT'', ''SOL/USDT''] \<and>
      sorted_wrt (\<lambda>a b. volume_key a \<ge> volume_key b) vf \<and>
      (\<forall>t \<in> set vf. t \<in> set sample_tickers \<and> endswith (symbol t) ''/USDT'' \<and>
         (\<exists>mk. sample_markets (symbol t) = Some mk \<and> active mk) \<and>
         (\<exists>v. quoteVolume t = Num v \<and> MIN_VOLUME < v)))"
proof -
  have m: "fetch_with_retry (load_markets sample_exchange) 3 1 0 = (Inr (Some sample_markets), 1, [Invoke])"
    using sample_load_markets [of 0] by simp
  have t: "fetch_with_retry (fetch_tickers sample_exchange) 3 1 1 = (Inr (Some sample_tickers), 2, [Invoke])"
    using sample_fetch_tickers [of 1] by (simp add: numeral_2_eq_2)
  have g: "fst (get_active_symbols sample_exchange 0) = Inr [''BTC/USDT'', ''ETH/USDT'', ''SOL/USDT'']"
    by (simp add: sample_get_active_symbols)
  from get_active_symbols_selection [OF m t]
  obtain vf where vf: "fst (get_active_symbols sample_exchange 0) = Inr (map symbol vf)"
    "sorted_wrt (\<lambda>a b. volume_key a \<ge> volume_key b) vf"
    "\<forall>t \<in> set vf. t \<in> set sample_tickers \<and> endswith (symbol t) ''/USDT'' \<and>
         (\<exists>m mk. Some sample_markets = Some m \<and> m (symbol t) = Some mk \<and> active mk) \<and>
         (\<exists>v. quoteVolume t = Num v \<and> volume_key t = v \<and> MIN_VOLUME < v \<and>
            MIN_VOLUME = 2500000)"
    by blast
  from vf(1) g have 1: "map symbol vf = [''BTC/USDT'', ''ETH/USDT'', ''SOL/USDT'']" by simp
  from vf(3) have 2: "\<forall>t \<in> set vf. t \<in> set sample_tickers \<and> endswith (symbol t) ''/USDT'' \<and>
         (\<exists>mk. sample_markets (symbol t) = Some mk \<and> active mk) \<and>
         (\<exists>v. quoteVolume t = Num v \<and> MIN_VOLUME < v)"
    by fastforce
  from 1 vf(2) 2 have "\<exists>vf. map symbol vf = [''BTC/USDT'', ''ETH/USDT'', ''SOL/USDT''] \<and>
      sorted_wrt (\<lambda>a b. volume_key a \<ge> volume_key b) vf \<and>
      (\<forall>t \<in> set vf. t \<in> set sample_tickers \<and> endswith (symbol t) ''/USDT'' \<and>
         (\<exists>mk. sample_markets (symbol t) = Some mk \<and> active mk) \<and>
         (\<exists>v. quoteVolume t = Num v \<and> MIN_VOLUME < v))"
    by (intro exI [of _ vf] conjI)
  with m t g show ?thesis by blast
qed

text \<open>
  Claim C6. \<open>get_active_symbols\<close> never raises: it always returns a list. Whenever the
  body of its \<^verbatim>\<open>try\<close> raises, the list is empty; in particular when loading the
  markets raises (retries exhausted or an error that is not retried), when fetching the
  tickers raises, and when the filtering raises (a \<^verbatim>\<open>/USDT\<close> ticker missing from the
  directory, a \<^verbatim>\<open>quoteVolume\<close> of \<^verbatim>\<open>None\<close>).
\<close>

theorem get_active_symbols_fail_soft:
  "(\<exists>symbols. fst (get_active_symbols ex w) = Inr symbols) \<and>
   (fst (get_active_symbols_try ex w) = Inl e \<longrightarrow> fst (get_active_symbols ex w) = Inr []) \<and>
   (fetch_with_retry (load_markets ex) 3 1 w = (Inl e, w1, tr1) \<longrightarrow>
      fst (get_active_symbols ex w) = Inr []) \<and>
   (fetch_with_retry (load_markets ex) 3 1 w = (Inr markets, w1, tr1) \<and>
    fetch_with_retry (fetch_tickers ex) 3 1 w1 = (Inl e, w2, tr2) \<longrightarrow>
      fst (get_active_symbols ex w) = Inr []) \<and>
   (fetch_with_retry (load_markets ex) 3 1 w = (Inr markets, w1, tr1) \<and>
    fetch_with_retry (fetch_tickers ex) 3 1 w1 = (Inr (Some tickers), w2, tr2) \<and>
    volume_filtered markets tickers = Inl e \<longrightarrow>
      fst (get_active_symbols ex w) = Inr [])"
proof (intro conjI impI)
  show "\<exists>symbols. fst (get_active_symbols ex w) = Inr symbols"
    by (rule get_active_symbols_total)
next
  assume "fst (get_active_symbols_try ex w) = Inl e"
  then show "fst (get_active_symbols ex w) = Inr []"
    by (simp add: get_active_symbols_handler)
next
  assume "fetch_with_retry (load_markets ex) 3 1 w = (Inl e, w1, tr1)"
  then have "fst (get_active_symbols_try ex w) = Inl e"
    by (simp add: get_active_symbols_try_def)
  then show "fst (get_active_symbols ex w) = Inr []"
    by (simp add: get_active_symbols_handler)
next
  assume "fetch_with_retry (load_markets ex) 3 1 w = (Inr markets, w1, tr1) \<and>
    fetch_with_retry (fetch_tickers ex) 3 1 w1 = (Inl e, w2, tr2)"
  then have "fst (get_active_symbols_try ex w) = Inl e"
    by (simp add: get_active_symbols_try_def)
  then show "fst (get_active_symbols ex w) = Inr []"
    by (simp add: get_active_symbols_handler)
next
  assume a: "fetch_with_retry (load_markets ex) 3 1 w = (Inr markets, w1, tr1) \<and>
    fetch_with_retry (fetch_tickers ex) 3 1 w1 = (Inr (Some tickers), w2, tr2) \<and>
    volume_filtered markets tickers = Inl e"
  then show "fst (get_active_symbols ex w) = Inr []"
    using get_active_symbols_fetched [of ex w markets w1 tr1 tickers w2 tr2] by simp
qed

theorem get_active_symbols_fail_soft_witness:
  "fetch_with_retry (load_markets offline_exchange) 3 1 0 =
     (Inl NetworkError, 3, [Invoke, Sleep 1, Invoke, Sleep 2, Invoke]) \<and>
   fst (get_active_symbols offline_exchange 0) = Inr [] \<and>
   fst (get_active_symbols_try offline_exchange 0) = Inl NetworkError \<and>
   fetch_with_retry (load_markets null_volume_exchange) 3 1 0 =
     (Inr (Some sample_markets), 1, [Invoke]) \<and>
   fetch_with_retry (fetch_tickers null_volume_exchange) 3 1 1 =
     (Inr (Some (sample_tickers @ [\<lparr>symbol = ''SOL/USDT'', quoteVolume = PyNone\<rparr>])), 2, [Invoke]) \<and>
   volume_filtered (Some sample_markets)
     (sample_tickers @ [\<lparr>symbol = ''SOL/USDT'', quoteVolume = PyNone\<rparr>]) = Inl TypeError \<and>
   fst (get_active_symbols null_volume_exchange 0) = Inr []"
proof -
  have off: "fetch_with_retry (load_markets offline_exchange) 3 1 0 =
     (Inl NetworkError, 3, [Invoke, Sleep 1, Invoke, Sleep 2, Invoke])"
    by (simp add: fetch_with_retry_def py_range_def upto_rec1 offline_exchange_def
        sample_exchange_def)
  then have body: "fst (get_active_symbols_try offline_exchange 0) = Inl NetworkError"
    by (simp add: get_active_symbols_try_def)
  have m: "fetch_with_retry (load_markets null_volume_exchange) 3 1 0 =
     (Inr (Some sample_markets), 1, [Invoke])"
    by (rule fetch_with_retry_success) (simp_all add: null_volume_exchange_def sample_exchange_def)
  have t: "fetch_with_retry (fetch_tickers null_volume_exchange) 3 1 1 =
     (Inr (Some (sample_tickers @ [\<lparr>symbol = ''SOL/USDT'', quoteVolume = PyNone\<rparr>])), 2, [Invoke])"
    by (rule fetch_with_retry_success) (simp_all add: null_volume_exchange_def sample_exchange_def)
  have v: "volume_filtered (Some sample_markets)
     (sample_tickers @ [\<lparr>symbol = ''SOL/USDT'', quoteVolume = PyNone\<rparr>]) = Inl TypeError"
    by (simp add: volume_filtered_def sample_markets_def sample_tickers_def endswith_def
        MIN_VOLUME_def)
  from get_active_symbols_fail_soft
    [of offline_exchange 0 NetworkError 3 "[Invoke, Sleep 1, Invoke, Sleep 2, Invoke]"] off
  have 1: "fst (get_active_symbols offline_exchange 0) = Inr []" by blast
  from get_active_symbols_fail_soft
    [of null_volume_exchange 0 TypeError 1 "[Invoke]" "Some sample_markets" 2 "[Invoke]"
      "sample_tickers @ [\<lparr>symbol = ''SOL/USDT'', quoteVolume = PyNone\<rparr>]"] m t v
  have 2: "fst (get_active_symbols null_volume_exchange 0) = Inr []" by blast
  from off body m t v 1 2 show ?thesis by blast
qed

section \<open>Floating-point arithmetic on finite values\<close>

text \<open>On finite operands the operations are the exact ones, up to the sign of a zero.\<close>

lemma fadd_Fin [simp]: "fadd (Fin a) (Fin b) = Fin (a + b)"
  by (auto simp add: fadd_def fl_result_def signed_zero_def)

lemma fsub_Fin [simp]: "fsub (Fin a) (Fin b) = Fin (a - b)"
  by (auto simp add: fsub_def fadd_def fl_result_def signed_zero_def)

lemma fmul_Fin_nonneg: "0 \<le> a \<Longrightarrow> 0 \<le> b \<Longrightarrow> fmul (Fin a) (Fin b) = Fin (a * b)"
  by (auto simp add: fmul_def fl_result_def signed_zero_def fl_is_inf_def)

lemma fmul_Fin_self [simp]: "fmul (Fin a) (Fin a) = Fin (a * a)"
  by (auto simp add: fmul_def fl_result_def signed_zero_def fl_is_inf_def)

lemma fdiv_Fin_pos: "0 \<le> a \<Longrightarrow> 0 < b \<Longrightarrow> fdiv (Fin a) (Fin b) = Fin (a / b)"
  by (auto simp add: fdiv_def fl_result_def signed_zero_def fl_is_inf_def fl_is_zero_def)

lemma fdiv_Fin_nonzero: "a \<noteq> 0 \<Longrightarrow> b \<noteq> 0 \<Longrightarrow> fdiv (Fin a) (Fin b) = Fin (a / b)"
  by (auto simp add: fdiv_def fl_result_def fl_is_inf_def fl_is_zero_def)



lemma nzero_simps [simp]: "nzero 0 = NZero" "x \<noteq> 0 \<Longrightarrow> nzero x = Fin x"
  by (simp_all add: nzero_def)

lemma fl_is_zero_simps [simp]:
  "fl_is_zero NZero" "fl_is_zero (Fin x) \<longleftrightarrow> x = 0" "\<not> fl_is_zero NaN"
  "\<not> fl_is_zero PInf" "\<not> fl_is_zero NInf"
  by (simp_all add: fl_is_zero_def)

lemma fl_is_zero_nzero: "fl_is_zero (nzero x) \<longleftrightarrow> x = 0"
  by (simp add: nzero_def)

lemma fmul_Fin_nzero: "0 < a \<Longrightarrow> 0 \<le> b \<Longrightarrow> fmul (Fin a) (nzero b) = nzero (a * b)"
  by (auto simp add: nzero_def fmul_def fl_result_def signed_zero_def fl_is_inf_def)

lemma fadd_nzero: "0 \<le> a \<Longrightarrow> 0 \<le> b \<Longrightarrow> fadd (nzero a) (nzero b) = nzero (a + b)"
  by (auto simp add: nzero_def fadd_def fl_result_def signed_zero_def add_nonneg_eq_0_iff)

section \<open>Properties of the series operations\<close>

lemma iloc_last: "xs \<noteq> [] \<Longrightarrow> iloc xs (- 1) = Inr (last xs)"
  by (cases xs rule: rev_cases) (auto simp add: iloc_def nat_add_distrib)

lemma diff_deltas: "xs \<noteq> [] \<Longrightarrow> diff xs = NaN # map Fin (deltas xs)"
  by (cases xs) (auto simp add: deltas_def)

lemma length_deltas [simp]: "length (deltas xs) = length xs - 1"
  by (cases xs) (simp_all add: deltas_def)

lemma rsi_gain_gains: "xs \<noteq> [] \<Longrightarrow> rsi_gain xs = map Fin (gains xs)"
  by (simp add: rsi_gain_def diff_deltas series_where_def gains_def fgt_def flt_def max_def)

lemma rsi_loss_losses: "xs \<noteq> [] \<Longrightarrow> rsi_loss xs = map nzero (losses xs)"
  by (auto simp add: rsi_loss_def diff_deltas series_where_def losses_def flt_def max_def nzero_def)

lemma gains_nonneg: "x \<in> set (gains xs) \<Longrightarrow> 0 \<le> x"
  by (auto simp add: gains_def)

lemma losses_nonneg: "x \<in> set (losses xs) \<Longrightarrow> 0 \<le> x"
  by (auto simp add: losses_def)

lemma ewm_from_Fin:
  assumes "0 < a" "a < 1"
  shows "0 \<le> y \<Longrightarrow> \<forall>x \<in> set xs. 0 \<le> x \<Longrightarrow>
    ewm_from a (Fin y) (map Fin xs) = map Fin (ewm_real_from a y xs)"
proof (induction xs arbitrary: y)
  case Nil
  then show ?case by simp
next
  case (Cons x xs)
  from Cons.prems assms have nn: "0 \<le> (1 - a) * y + a * x" by simp
  from Cons.prems assms have
    "fadd (fmul (Fin (1 - a)) (Fin y)) (fmul (Fin a) (Fin x)) = Fin ((1 - a) * y + a * x)"
    by (simp add: fmul_Fin_nonneg)
  with Cons.IH [OF nn] Cons.prems show ?case by (simp add: Let_def)
qed

lemma ewm_mean_Fin:
  assumes "0 < a" "a < 1" "\<forall>x \<in> set xs. 0 \<le> x"
  shows "ewm_mean a (map Fin xs) = map Fin (ewm_real a xs)"
  using assms by (cases xs) (simp_all add: ewm_from_Fin)

lemma ewm_from_nzero:
  assumes "0 < a" "a < 1"
  shows "0 \<le> y \<Longrightarrow> \<forall>x \<in> set xs. 0 \<le> x \<Longrightarrow>
    ewm_from a (nzero y) (map nzero xs) = map nzero (ewm_real_from a y xs)"
proof (induction xs arbitrary: y)
  case Nil
  then show ?case by simp
next
  case (Cons x xs)
  from Cons.prems assms have nn: "0 \<le> (1 - a) * y + a * x" by simp
  from Cons.prems assms have
    "fadd (fmul (Fin (1 - a)) (nzero y)) (fmul (Fin a) (nzero x)) = nzero ((1 - a) * y + a * x)"
    by (simp add: fmul_Fin_nzero fadd_nzero)
  with Cons.IH [OF nn] Cons.prems show ?case by (simp add: Let_def)
qed

lemma ewm_mean_nzero:
  assumes "0 < a" "a < 1" "\<forall>x \<in> set xs. 0 \<le> x"
  shows "ewm_mean a (map nzero xs) = map nzero (ewm_real a xs)"
  using assms by (cases xs) (simp_all add: ewm_from_nzero)

lemma length_ewm_real_from [simp]: "length (ewm_real_from a y xs) = length xs"
  by (induction xs arbitrary: y) simp_all

lemma length_ewm_real [simp]: "length (ewm_real a xs) = length xs"
  by (cases xs) simp_all

lemma last_ewm_real_from:
  assumes "0 < a" "a < 1"
  shows "0 \<le> y \<Longrightarrow> \<forall>x \<in> set xs. 0 \<le> x \<Longrightarrow>
    0 \<le> last (y # ewm_real_from a y xs) \<and>
    (last (y # ewm_real_from a y xs) = 0 \<longleftrightarrow> y = 0 \<and> (\<forall>x \<in> set xs. x = 0))"
proof (induction xs arbitrary: y)
  case Nil
  then show ?case by simp
next
  case (Cons x xs)
  let ?y = "(1 - a) * y + a * x"
  from Cons.prems assms have nn: "0 \<le> ?y" by simp
  from Cons.prems assms have z: "?y = 0 \<longleftrightarrow> y = 0 \<and> x = 0"
    by (simp add: add_nonneg_eq_0_iff)
  from Cons.IH [OF nn] Cons.prems z show ?case by auto
qed

lemma last_ewm_real:
  assumes "0 < a" "a < 1" "xs \<noteq> []" "\<forall>x \<in> set xs. 0 \<le> x"
  shows "0 \<le> last (ewm_real a xs)"
    and "last (ewm_real a xs) = 0 \<longleftrightarrow> (\<forall>x \<in> set xs. x = 0)"
proof -
  from assms(3) obtain x xs' where xs: "xs = x # xs'" by (cases xs) auto
  with assms(4) have "0 \<le> x" "\<forall>x \<in> set xs'. 0 \<le> x" by simp_all
  from last_ewm_real_from [OF assms(1,2) this] xs
  show "0 \<le> last (ewm_real a xs)"
    and "last (ewm_real a xs) = 0 \<longleftrightarrow> (\<forall>x \<in> set xs. x = 0)" by auto
qed

section \<open>Properties of vectorized_rsi\<close>

lemma length_diff [simp]: "length (diff xs) = length xs"
  by (cases xs) simp_all

lemma length_ewm_from [simp]: "length (ewm_from a y xs) = length xs"
  by (induction xs arbitrary: y) (simp_all add: Let_def)

lemma length_ewm_mean [simp]: "length (ewm_mean a xs) = length xs"
  by (cases xs) simp_all

lemma length_vectorized_rsi [simp]: "length (vectorized_rsi xs p) = length xs"
  by (simp add: vectorized_rsi_def rsi_rs_def rsi_avg_gain_def rsi_avg_loss_def rsi_gain_def
      rsi_loss_def series_where_def)

lemma length_gains [simp]: "xs \<noteq> [] \<Longrightarrow> length (gains xs) = length xs"
  by (cases xs) (simp_all add: gains_def)

lemma length_losses [simp]: "xs \<noteq> [] \<Longrightarrow> length (losses xs) = length xs"
  by (cases xs) (simp_all add: losses_def)

lemma rsi_avg_gain_real:
  "xs \<noteq> [] \<Longrightarrow> rsi_avg_gain xs 14 = map Fin (ewm_real (1 / 14) (gains xs))"
  by (simp add: rsi_avg_gain_def rsi_gain_gains ewm_mean_Fin gains_nonneg)

lemma rsi_avg_loss_real:
  "xs \<noteq> [] \<Longrightarrow> rsi_avg_loss xs 14 = map nzero (ewm_real (1 / 14) (losses xs))"
  by (simp add: rsi_avg_loss_def rsi_loss_losses ewm_mean_nzero losses_nonneg)


lemma last_vectorized_rsi:
  assumes "xs \<noteq> []"
  shows "iloc (vectorized_rsi xs 14) (- 1) =
    Inr (fsub (Fin 100) (fdiv (Fin 100)
      (fadd (Fin 1) (fdiv (Fin (last_avg_gain xs)) (nzero (last_avg_loss xs))))))"
proof -
  let ?G = "ewm_real (1 / 14) (gains xs)" and ?L = "ewm_real (1 / 14) (losses xs)"
  have ne: "?G \<noteq> []" "?L \<noteq> []" and len: "length ?G = length ?L"
    using assms by (auto simp add: gains_def losses_def)
  have z: "zip (map Fin ?G) (map nzero ?L) \<noteq> []" using ne by (cases ?G; cases ?L) simp_all
  have "last (zip (map Fin ?G) (map nzero ?L)) = (Fin (last ?G), nzero (last ?L))"
    using ne len by (simp add: last_zip last_map)
  then have "last (rsi_rs xs 14) = fdiv (Fin (last ?G)) (nzero (last ?L))"
    using z assms by (simp add: rsi_rs_def rsi_avg_gain_real rsi_avg_loss_real last_map)
  moreover have "rsi_rs xs 14 \<noteq> []"
    using z assms by (simp add: rsi_rs_def rsi_avg_gain_real rsi_avg_loss_real)
  ultimately show ?thesis
    by (simp add: vectorized_rsi_def iloc_last last_map last_avg_gain_def last_avg_loss_def)
qed



lemma gains_all_zero: "(\<forall>x \<in> set (gains xs). x = 0) \<longleftrightarrow> (\<forall>d \<in> set (deltas xs). d \<le> 0)"
proof -
  have "max d 0 = 0 \<longleftrightarrow> d \<le> 0" for d :: real by (simp add: max_def)
  then show ?thesis by (simp add: gains_def)
qed

lemma losses_all_zero: "(\<forall>x \<in> set (losses xs). x = 0) \<longleftrightarrow> (\<forall>d \<in> set (deltas xs). 0 \<le> d)"
proof -
  have "max (- d) 0 = 0 \<longleftrightarrow> 0 \<le> d" for d :: real by (simp add: max_def)
  then show ?thesis by (simp add: losses_def)
qed

lemma last_avg_gain_zero: "last_avg_gain xs = 0 \<longleftrightarrow> (\<forall>d \<in> set (deltas xs). d \<le> 0)"
proof -
  have "last (ewm_real (1 / 14) (gains xs)) = 0 \<longleftrightarrow> (\<forall>x \<in> set (gains xs). x = 0)"
    by (rule last_ewm_real(2)) (auto simp add: gains_def)
  then show ?thesis by (simp only: last_avg_gain_def gains_all_zero)
qed

lemma last_avg_loss_zero: "last_avg_loss xs = 0 \<longleftrightarrow> (\<forall>d \<in> set (deltas xs). 0 \<le> d)"
proof -
  have "last (ewm_real (1 / 14) (losses xs)) = 0 \<longleftrightarrow> (\<forall>x \<in> set (losses xs). x = 0)"
    by (rule last_ewm_real(2)) (auto simp add: losses_def)
  then show ?thesis by (simp only: last_avg_loss_def losses_all_zero)
qed

lemma deltas_Cons2: "deltas (x # y # ys) = (y - x) # deltas (y # ys)"
  by (simp add: deltas_def)

lemma flat_deltas: "flat xs \<longleftrightarrow> (\<forall>d \<in> set (deltas xs). d = 0)"
proof (induction xs rule: induct_list012)
  case 1
  show ?case by (simp add: flat_def deltas_def)
next
  case (2 x)
  show ?case by (simp add: flat_def deltas_def)
next
  case (3 x y zs)
  have "flat (x # y # zs) \<longleftrightarrow> y = x \<and> flat (y # zs)"
    by (auto simp add: flat_def)
  with 3 show ?case by (auto simp add: deltas_Cons2)
qed

lemma flat_avg_zero: "flat xs \<longleftrightarrow> last_avg_gain xs = 0 \<and> last_avg_loss xs = 0"
proof -
  have "(\<forall>d \<in> set (deltas xs). d = 0) \<longleftrightarrow>
    (\<forall>d \<in> set (deltas xs). d \<le> 0) \<and> (\<forall>d \<in> set (deltas xs). 0 \<le> d)"
    by (metis order_antisym order_refl)
  then show ?thesis by (simp only: flat_deltas last_avg_gain_zero last_avg_loss_zero)
qed

lemma flat_replicate: "flat (replicate n c)"
  by (cases n) (simp_all add: flat_def)



lemma rsi_flat:
  assumes "xs \<noteq> []" "flat xs"
  shows "iloc (vectorized_rsi xs 14) (- 1) = Inr NaN"
  using assms
  by (simp add: flat_avg_zero last_vectorized_rsi fdiv_def fadd_def fsub_def fl_is_inf_def
      fl_is_zero_def)




section \<open>Properties of the analysis\<close>

lemma iloc_negative:
  "i < 0 \<Longrightarrow> - i \<le> int (length xs) \<Longrightarrow> iloc xs i = Inr (xs ! nat (int (length xs) + i))"
  by (simp add: iloc_def)

lemma iloc_negative_short: "i < 0 \<Longrightarrow> int (length xs) < - i \<Longrightarrow> iloc xs i = Inl IndexError"
  by (simp add: iloc_def)

lemma last_map_upt: "0 < n \<Longrightarrow> last (map f [0..<n]) = f (n - 1)"
  by (cases n) (simp_all add: last_map)

lemma length_rolling [simp]:
  "length (rolling_min w xs) = length xs" "length (rolling_max w xs) = length xs"
  by (simp_all add: rolling_min_def rolling_max_def)

lemma last_rolling_min:
  assumes "0 < w" "w \<le> length xs"
  shows "iloc (rolling_min w xs) (- 1) = Inr (Fin (Min (set (tail w xs))))"
proof -
  from assms have n: "0 < length xs" by (cases xs) simp_all
  then have ne: "rolling_min w xs \<noteq> []" by (simp add: rolling_min_def)
  have "last (rolling_min w xs) = Fin (Min (set (tail w xs)))"
    unfolding rolling_min_def using assms n
    by (auto simp add: last_map_upt tail_def)
  with ne show ?thesis by (simp add: iloc_last)
qed

lemma last_rolling_max:
  assumes "0 < w" "w \<le> length xs"
  shows "iloc (rolling_max w xs) (- 1) = Inr (Fin (Max (set (tail w xs))))"
proof -
  from assms have n: "0 < length xs" by (cases xs) simp_all
  then have ne: "rolling_max w xs \<noteq> []" by (simp add: rolling_max_def)
  have "last (rolling_max w xs) = Fin (Max (set (tail w xs)))"
    unfolding rolling_max_def using assms n
    by (auto simp add: last_map_upt tail_def)
  with ne show ?thesis by (simp add: iloc_last)
qed

lemma last_in_tail:
  assumes "0 < w" "xs \<noteq> []"
  shows "last xs \<in> set (tail w xs)"
proof -
  from assms have "length xs - w < length xs" by (cases xs) simp_all
  then have "drop (length xs - w) xs \<noteq> []" and "last (drop (length xs - w) xs) = last xs"
    by simp_all
  then show ?thesis unfolding tail_def by (metis last_in_set)
qed

lemma analysis_of_long:
  assumes "168 \<le> length ohlcv"
  shows "analysis_of name ohlcv =
    Inr \<lparr>result_symbol = str_replace name ''/USDT'' '''',
         price = Fin (last (map close ohlcv)),
         rsi = fsub (Fin 100) (fdiv (Fin 100) (fadd (Fin 1)
           (fdiv (Fin (last_avg_gain (map close ohlcv))) (nzero (last_avg_loss (map close ohlcv)))))),
         change_24h = percent_change (last (map close ohlcv))
           (map close ohlcv ! (length ohlcv - 24)),
         change_7d = percent_change (last (map close ohlcv))
           (map close ohlcv ! (length ohlcv - 168)),
         volatility = fmul (std (pct_change (map close ohlcv))) (Fin (sqrt 365)),
         volume_24h = series_sum (tail 24 (map volume ohlcv)),
         support = Fin (Min (set (tail 24 (map close ohlcv)))),
         resistance = Fin (Max (set (tail 24 (map close ohlcv)))),
         vwap = fdiv (series_sum (map (\<lambda>(c, v). c * v) (zip (map close ohlcv) (map volume ohlcv))))
                  (series_sum (map volume ohlcv))\<rparr>"
proof -
  let ?c = "map close ohlcv"
  from assms have ne: "?c \<noteq> []" by auto
  have 1: "iloc ?c (- 1) = Inr (last ?c)" using ne by (rule iloc_last)
  have 2: "iloc (vectorized_rsi ?c 14) (- 1) = Inr (fsub (Fin 100) (fdiv (Fin 100) (fadd (Fin 1)
           (fdiv (Fin (last_avg_gain ?c)) (nzero (last_avg_loss ?c))))))"
    using ne by (rule last_vectorized_rsi)
  have 3: "iloc ?c (- 24) = Inr (?c ! (length ohlcv - 24))"
    using assms by (simp add: iloc_negative nat_diff_distrib')
  have 4: "iloc ?c (- (42 * 4)) = Inr (?c ! (length ohlcv - 168))"
    using assms by (simp add: iloc_negative nat_diff_distrib')
  have 5: "iloc (rolling_min 24 ?c) (- 1) = Inr (Fin (Min (set (tail 24 ?c))))"
    using assms by (intro last_rolling_min) simp_all
  have 6: "iloc (rolling_max 24 ?c) (- 1) = Inr (Fin (Max (set (tail 24 ?c))))"
    using assms by (intro last_rolling_max) simp_all
  show ?thesis
    unfolding analysis_of_def Let_def 1 2 3 4 5 6 by simp
qed

lemma analysis_of_short:
  assumes "length ohlcv < 168"
  shows "analysis_of name ohlcv = Inl IndexError"
proof -
  let ?c = "map close ohlcv"
  have 4: "iloc ?c (- (42 * 4)) = Inl IndexError"
    using assms by (simp add: iloc_negative_short)
  have e: "\<And>x. iloc x (- 1) = Inl e \<Longrightarrow> e = IndexError" for e
    by (simp add: iloc_def split: if_splits)
  have e24: "iloc ?c (- 24) = Inl e \<Longrightarrow> e = IndexError" for e
    by (simp add: iloc_def split: if_splits)
  show ?thesis
    unfolding analysis_of_def Let_def 4
    by (auto split: sum.splits dest: e e24)
qed

lemma analyze_symbol_fetched:
  assumes "fetch_with_retry (fetch_ohlcv ex name) 3 1 w = (Inr (Some ohlcv), w', tr)"
  shows "analyze_symbol ex name w =
     (if length ohlcv < 50 then Inr None
      else (case analysis_of name ohlcv of Inl e \<Rightarrow> Inr None | Inr a \<Rightarrow> Inr (Some a)), w')"
  using assms
  by (simp add: analyze_symbol_def analyze_symbol_try_def split: sum.splits)

lemma analyze_symbol_fetch_raises:
  assumes "fetch_with_retry (fetch_ohlcv ex name) 3 1 w = (Inl e, w', tr)"
  shows "analyze_symbol ex name w = (Inr None, w')"
  using assms by (simp add: analyze_symbol_def analyze_symbol_try_def)

lemma analyze_symbol_total: "\<exists>r. fst (analyze_symbol ex name w) = Inr r"
  by (simp add: analyze_symbol_def split: prod.splits sum.splits)

lemma analyze_symbol_Some:
  assumes "fst (analyze_symbol ex name w) = Inr (Some a)"
  shows "\<exists>ohlcv w' tr. fetch_with_retry (fetch_ohlcv ex name) 3 1 w = (Inr (Some ohlcv), w', tr) \<and>
    50 \<le> length ohlcv \<and> analysis_of name ohlcv = Inr a"
  using assms
  by (auto simp add: analyze_symbol_def analyze_symbol_try_def
      split: prod.splits sum.splits option.splits if_splits)

lemma analysis_of_Inr_long:
  assumes "analysis_of name ohlcv = Inr a"
  shows "168 \<le> length ohlcv"
proof (rule ccontr)
  assume "\<not> 168 \<le> length ohlcv"
  then have "length ohlcv < 168" by simp
  from analysis_of_short [OF this, of name] assms show False by simp
qed


lemma sample_fetch_btc:
  "fetch_with_retry (fetch_ohlcv sample_exchange ''BTC/USDT'') 3 1 w =
     (Inr (Some (replicate 168 sample_candle)), Suc w, [Invoke])"
  by (rule fetch_with_retry_success) (simp_all add: sample_exchange_def)

lemma sample_fetch_eth:
  "fetch_with_retry (fetch_ohlcv sample_exchange ''ETH/USDT'') 3 1 w =
     (Inr (Some (replicate 10 sample_candle)), Suc w, [Invoke])"
  by (rule fetch_with_retry_success) (simp_all add: sample_exchange_def)

lemma sample_fetch_sol:
  "fetch_with_retry (fetch_ohlcv sample_exchange ''SOL/USDT'') 3 1 w =
     (Inl ValueError, Suc w, [Invoke])"
  by (rule fetch_with_retry_first_call) (simp_all add: sample_exchange_def)

text \<open>
  Claim C7. When the fetch returns a series of fewer than 50 candles, \<open>analyze_symbol\<close>
  returns \<^verbatim>\<open>None\<close>: the result is a value (\<open>Inr\<close>), no exception leaves the function.
\<close>

theorem analyze_symbol_insufficient_history:
  assumes "fetch_with_retry (fetch_ohlcv ex name) 3 1 w = (Inr (Some ohlcv), w', tr)"
    and "length ohlcv < 50"
  shows "analyze_symbol ex name w = (Inr None, w')"
  using analyze_symbol_fetched [OF assms(1)] assms(2) by simp

theorem analyze_symbol_insufficient_history_witness:
  "fetch_with_retry (fetch_ohlcv sample_exchange ''ETH/USDT'') 3 1 0 =
     (Inr (Some (replicate 10 sample_candle)), 1, [Invoke]) \<and>
   length (replicate 10 sample_candle) < 50 \<and>
   analyze_symbol sample_exchange ''ETH/USDT'' 0 = (Inr None, 1)"
proof -
  have f: "fetch_with_retry (fetch_ohlcv sample_exchange ''ETH/USDT'') 3 1 0 =
     (Inr (Some (replicate 10 sample_candle)), 1, [Invoke])"
    using sample_fetch_eth [of 0] by simp
  have l: "length (replicate 10 sample_candle) < 50" by simp
  from analyze_symbol_insufficient_history [OF f l] f l show ?thesis by simp
qed











text \<open>
  Claim C10. In every result that \<open>analyze_symbol\<close> returns, support, price and resistance
  are finite and \<open>support \<le> price \<le> resistance\<close>: the price is the latest close, which is
  one of the 24 closes whose minimum and maximum are the support and the resistance.
\<close>

theorem support_price_resistance:
  assumes "fst (analyze_symbol ex name w) = Inr (Some a)"
  shows "\<exists>s p r. support a = Fin s \<and> price a = Fin p \<and> resistance a = Fin r \<and>
    s \<le> p \<and> p \<le> r \<and> fle (support a) (price a) \<and> fle (price a) (resistance a)"
proof -
  from analyze_symbol_Some [OF assms] obtain ohlcv where
    a: "analysis_of name ohlcv = Inr a" by blast
  then have l: "168 \<le> length ohlcv" by (rule analysis_of_Inr_long)
  let ?c = "map close ohlcv"
  from l have ne: "?c \<noteq> []" by auto
  have m: "last ?c \<in> set (tail 24 ?c)" using ne by (intro last_in_tail) simp_all
  then have lo: "Min (set (tail 24 ?c)) \<le> last ?c" and hi: "last ?c \<le> Max (set (tail 24 ?c))"
    by simp_all
  from analysis_of_long [OF l, of name] a
  have "support a = Fin (Min (set (tail 24 ?c)))" "price a = Fin (last ?c)"
    "resistance a = Fin (Max (set (tail 24 ?c)))" by auto
  with lo hi show ?thesis by (simp add: fle_def)
qed

lemma sample_analyze_btc:
  "\<exists>a. analyze_symbol sample_exchange ''BTC/USDT'' w = (Inr (Some a), Suc w) \<and>
     analysis_of ''BTC/USDT'' (replicate 168 sample_candle) = Inr a"
  using analysis_of_long [of "replicate 168 sample_candle" "''BTC/USDT''"]
  by (simp add: analyze_symbol_fetched [OF sample_fetch_btc])

theorem support_price_resistance_witness:
  "\<exists>a. fst (analyze_symbol sample_exchange ''BTC/USDT'' 0) = Inr (Some a) \<and>
    (\<exists>s p r. support a = Fin s \<and> price a = Fin p \<and> resistance a = Fin r \<and>
       s \<le> p \<and> p \<le> r)"
proof -
  from sample_analyze_btc [of 0] obtain a where
    a: "fst (analyze_symbol sample_exchange ''BTC/USDT'' 0) = Inr (Some a)" by auto
  from support_price_resistance [OF a] a show ?thesis by blast
qed

text \<open>Flat series.\<close>

lemma closes_flat:
  "\<forall>k \<in> set ohlcv. close k = c \<Longrightarrow> map close ohlcv = replicate (length ohlcv) c"
  by (induction ohlcv) simp_all

lemma pct_change_replicate:
  assumes "c \<noteq> 0"
  shows "pct_change (replicate (Suc m) c) = NaN # replicate m (Fin 0)"
proof -
  have "zip (replicate m c) (c # replicate m c) = replicate m (c, c)"
    using zip_replicate [of m c "Suc m" c] by simp
  moreover have "fsub (fdiv (Fin c) (Fin c)) (Fin 1) = Fin 0"
    using assms by (simp add: fdiv_Fin_nonzero)
  ultimately show ?thesis by simp
qed

lemma fsum_replicate_zero: "fsum (replicate k (Fin 0)) = Fin 0"
proof -
  have "foldl fadd (Fin 0) (replicate k (Fin 0)) = Fin 0"
    by (induction k) simp_all
  then show ?thesis by (simp add: fsum_def)
qed

lemma std_flat:
  assumes "2 \<le> m"
  shows "std (NaN # replicate m (Fin 0)) = Fin 0"
proof -
  have f: "filter (\<lambda>x. x \<noteq> NaN) (NaN # replicate m (Fin 0)) = replicate m (Fin 0)"
    by simp
  have m: "\<not> m \<le> 1" "0 < real m" "0 < real (m - 1)" using assms by simp_all
  have avg: "fdiv (fsum (replicate m (Fin 0))) (Fin (real m)) = Fin 0"
    using m by (simp add: fsum_replicate_zero fdiv_Fin_pos)
  have sqr: "map (\<lambda>v. fmul (fsub (Fin 0) v) (fsub (Fin 0) v)) (replicate m (Fin 0)) =
      replicate m (Fin 0)"
    by simp
  have "fsqrt (fdiv (fsum (replicate m (Fin 0))) (Fin (real (m - 1)))) = Fin 0"
    using m by (simp add: fsum_replicate_zero fdiv_Fin_pos)
  then show ?thesis
    unfolding std_def Let_def f using m(1) by (simp add: avg)
qed

lemma volatility_flat:
  assumes "c \<noteq> 0" "3 \<le> n"
  shows "fmul (std (pct_change (replicate n c))) (Fin (sqrt 365)) = Fin 0"
proof -
  from assms(2) obtain m where n: "n = Suc m" and m: "2 \<le> m" by (cases n) auto
  show ?thesis
    unfolding n pct_change_replicate [OF assms(1)] std_flat [OF m]
    by (simp add: fmul_Fin_nonneg)
qed

lemma percent_change_same:
  assumes "c \<noteq> 0"
  shows "fl_is_zero (percent_change c c)" and "0 < c \<Longrightarrow> percent_change c c = Fin 0"
proof -
  show "fl_is_zero (percent_change c c)"
    using assms
    by (auto simp add: percent_change_def fdiv_def fmul_def fl_result_def signed_zero_def
        fl_is_inf_def fl_is_zero_def)
  assume "0 < c"
  then show "percent_change c c = Fin 0"
    by (simp add: percent_change_def fdiv_Fin_pos fmul_Fin_nonneg)
qed

lemma analysis_of_flat_rsi:
  assumes "168 \<le> length ohlcv" "flat (map close ohlcv)"
  shows "map_sum id rsi (analysis_of name ohlcv) = Inr NaN"
proof -
  from assms(1) have ne: "map close ohlcv \<noteq> []" by auto
  from rsi_flat [OF ne assms(2)] last_vectorized_rsi [OF ne]
  show ?thesis by (simp add: analysis_of_long [OF assms(1)])
qed

text \<open>
  Claim C3, as the code has it. For a flat series of at least 50 candles at a price
  \<open>c\<close> other than zero: with 168 candles or more the analysis produces a result whose RSI
  is NaN (\<^verbatim>\<open>0/0\<close>, not 100), whose volatility is 0 and whose two changes are zero
  (\<open>Fin 0\<close> for a positive price); with fewer than 168 candles it raises
  \<^verbatim>\<open>IndexError\<close> and produces no result.
\<close>

theorem flat_series_analysis:
  assumes "50 \<le> length ohlcv" and "\<forall>k \<in> set ohlcv. close k = c" and "c \<noteq> 0"
  shows "(168 \<le> length ohlcv \<longrightarrow>
      (\<exists>a. analysis_of name ohlcv = Inr a \<and> rsi a = NaN \<and> volatility a = Fin 0 \<and>
         fl_is_zero (change_24h a) \<and> fl_is_zero (change_7d a) \<and>
         (0 < c \<longrightarrow> change_24h a = Fin 0 \<and> change_7d a = Fin 0))) \<and>
    (length ohlcv < 168 \<longrightarrow> analysis_of name ohlcv = Inl IndexError)"
proof (intro conjI impI)
  assume l: "168 \<le> length ohlcv"
  let ?n = "length ohlcv"
  have c: "map close ohlcv = replicate ?n c" using assms(2) by (rule closes_flat)
  from l have "?n \<noteq> 0" by linarith
  then have last: "last (map close ohlcv) = c" unfolding c by (rule last_replicate)
  have nth: "map close ohlcv ! (?n - 24) = c" "map close ohlcv ! (?n - 168) = c"
    using l unfolding c by simp_all
  have vol: "fmul (std (pct_change (map close ohlcv))) (Fin (sqrt 365)) = Fin 0"
    unfolding c using assms(3) l by (intro volatility_flat) simp_all
  have "flat (map close ohlcv)" unfolding c by (rule flat_replicate)
  from analysis_of_flat_rsi [OF l this, of name] analysis_of_long [OF l, of name]
  obtain a where a: "analysis_of name ohlcv = Inr a" "rsi a = NaN"
    "change_24h a = percent_change c c" "change_7d a = percent_change c c"
    "volatility a = Fin 0"
    unfolding last nth vol by auto
  with percent_change_same [OF assms(3)]
  show "\<exists>a. analysis_of name ohlcv = Inr a \<and> rsi a = NaN \<and> volatility a = Fin 0 \<and>
         fl_is_zero (change_24h a) \<and> fl_is_zero (change_7d a) \<and>
         (0 < c \<longrightarrow> change_24h a = Fin 0 \<and> change_7d a = Fin 0)"
    by (intro exI [of _ a]) simp
next
  assume "length ohlcv < 168"
  then show "analysis_of name ohlcv = Inl IndexError" by (rule analysis_of_short)
qed

theorem flat_series_analysis_witness:
  "50 \<le> length (replicate 168 (flat_candle 7)) \<and>
   map close (replicate 168 (flat_candle 7)) = replicate 168 7 \<and> (7 :: real) \<noteq> 0 \<and>
   168 \<le> length (replicate 168 (flat_candle 7)) \<and> (0 :: real) < 7 \<and>
   (\<exists>a. analysis_of ''BTC/USDT'' (replicate 168 (flat_candle 7)) = Inr a \<and> rsi a = NaN \<and>
      volatility a = Fin 0 \<and> change_24h a = Fin 0 \<and> change_7d a = Fin 0) \<and>
   50 \<le> length (replicate 50 (flat_candle 7)) \<and>
   map close (replicate 50 (flat_candle 7)) = replicate 50 7 \<and>
   length (replicate 50 (flat_candle 7)) < 168 \<and>
   analysis_of ''BTC/USDT'' (replicate 50 (flat_candle 7)) = Inl IndexError"
proof -
  have 1: "50 \<le> length (replicate 168 (flat_candle 7))" by simp
  have 2: "\<forall>k \<in> set (replicate 168 (flat_candle 7)). close k = 7"
    by (simp add: flat_candle_def)
  have 3: "(7 :: real) \<noteq> 0" by simp
  have 4: "50 \<le> length (replicate 50 (flat_candle 7))" by simp
  have 5: "\<forall>k \<in> set (replicate 50 (flat_candle 7)). close k = 7"
    by (simp add: flat_candle_def)
  from flat_series_analysis [OF 1 2 3, of "''BTC/USDT''"]
  have 6: "\<exists>a. analysis_of ''BTC/USDT'' (replicate 168 (flat_candle 7)) = Inr a \<and> rsi a = NaN \<and>
      volatility a = Fin 0 \<and> change_24h a = Fin 0 \<and> change_7d a = Fin 0"
    by auto
  from flat_series_analysis [OF 4 5 3, of "''BTC/USDT''"]
  have 7: "analysis_of ''BTC/USDT'' (replicate 50 (flat_candle 7)) = Inl IndexError"
    by simp
  have 8: "close (flat_candle 7) = 7"
    by (simp add: flat_candle_def)
  from 1 3 4 6 7 8 show ?thesis by simp
qed

text \<open>
  Claim C3 as the specification words it fails on three flat series: 168 candles at
  price 1, where the RSI is NaN; 50 candles at price 1, where the analysis raises
  \<^verbatim>\<open>IndexError\<close> and yields nothing; 168 candles at price 0, where both changes are
  NaN.
\<close>

theorem flat_series_analysis_counterexample:
  "length (replicate 168 (flat_candle 1)) = 168 \<and>
   map close (replicate 168 (flat_candle 1)) = replicate 168 1 \<and>
   map_sum id rsi (analysis_of ''BTC/USDT'' (replicate 168 (flat_candle 1))) = Inr NaN \<and>
   NaN \<noteq> Fin 100 \<and>
   length (replicate 50 (flat_candle 1)) = 50 \<and>
   map close (replicate 50 (flat_candle 1)) = replicate 50 1 \<and>
   analysis_of ''BTC/USDT'' (replicate 50 (flat_candle 1)) = Inl IndexError \<and>
   map close (replicate 168 (flat_candle 0)) = replicate 168 0 \<and>
   map_sum id change_24h (analysis_of ''BTC/USDT'' (replicate 168 (flat_candle 0))) = Inr NaN \<and>
   map_sum id change_7d (analysis_of ''BTC/USDT'' (replicate 168 (flat_candle 0))) = Inr NaN \<and>
   \<not> fl_is_zero NaN"
proof -
  have c: "map close (replicate n (flat_candle x)) = replicate n x" for n x
    by (simp add: flat_candle_def)
  have "flat (map close (replicate 168 (flat_candle 1)))"
    unfolding c by (rule flat_replicate)
  then have 1: "map_sum id rsi (analysis_of ''BTC/USDT'' (replicate 168 (flat_candle 1))) = Inr NaN"
    by (intro analysis_of_flat_rsi) simp_all
  have 2: "analysis_of ''BTC/USDT'' (replicate 50 (flat_candle 1)) = Inl IndexError"
    by (rule analysis_of_short) simp
  have z: "percent_change 0 0 = NaN"
    by (simp add: percent_change_def fdiv_def fmul_def fl_is_inf_def)
  have l: "168 \<le> length (replicate 168 (flat_candle 0))" by simp
  have 3: "map_sum id change_24h (analysis_of ''BTC/USDT'' (replicate 168 (flat_candle 0))) = Inr NaN"
    "map_sum id change_7d (analysis_of ''BTC/USDT'' (replicate 168 (flat_candle 0))) = Inr NaN"
    unfolding analysis_of_long [OF l] by (simp_all add: c last_replicate z flat_candle_def)
  from 1 2 3 show ?thesis by (simp add: flat_candle_def)
qed

section \<open>Properties of update_dashboard\<close>

lemma length_executor_map: "length (fst (executor_map f xs w)) = length xs"
  by (induction xs arbitrary: w) (simp_all add: case_prod_beta)

lemma executor_map_analyze_symbol:
  "\<exists>rs. fst (executor_map (analyze_symbol ex) symbols w) = map Inr rs"
proof (induction symbols arbitrary: w)
  case Nil
  show ?case by simp
next
  case (Cons s symbols)
  obtain r w1 where a: "analyze_symbol ex s w = (Inr r, w1)"
    using analyze_symbol_total [of ex s w] by (cases "analyze_symbol ex s w") auto
  from Cons [of w1] obtain rs where "fst (executor_map (analyze_symbol ex) symbols w1) = map Inr rs"
    by blast
  then have "fst (executor_map (analyze_symbol ex) (s # symbols) w) = map Inr (r # rs)"
    using a by (simp add: case_prod_beta)
  then show ?case by blast
qed

lemma list_results_Inr: "list_results (map Inr rs) = Inr rs"
  by (induction rs) simp_all

lemma valid_data_Nil: "valid_data ex [] w = (Inr [], w)"
  by (simp add: valid_data_def)

lemma valid_data_Cons:
  assumes "analyze_symbol ex s w = (Inr r, w1)"
  shows "valid_data ex (s # rest) w =
    (case r of
       None \<Rightarrow> valid_data ex rest w1
     | Some a \<Rightarrow> (map_sum id (Cons (Some a)) (fst (valid_data ex rest w1)),
                  snd (valid_data ex rest w1)))"
proof -
  obtain rs w2 where e: "executor_map (analyze_symbol ex) rest w1 = (map Inr rs, w2)"
    using executor_map_analyze_symbol [of ex rest w1]
    by (cases "executor_map (analyze_symbol ex) rest w1") auto
  show ?thesis
    using assms e by (cases r) (simp_all add: valid_data_def list_results_Inr)
qed

lemma valid_data_total:
  "\<exists>snapshot. fst (valid_data ex symbols w) = Inr snapshot \<and> None \<notin> set snapshot \<and>
     length snapshot \<le> length symbols"
proof -
  obtain rs w2 where e: "executor_map (analyze_symbol ex) symbols w = (map Inr rs, w2)"
    using executor_map_analyze_symbol [of ex symbols w]
    by (cases "executor_map (analyze_symbol ex) symbols w") auto
  from length_executor_map [of "analyze_symbol ex" symbols w] e
  have "length rs = length symbols" by simp
  moreover have "length (filter (\<lambda>r. r \<noteq> None) rs) \<le> length rs" by (rule length_filter_le)
  ultimately show ?thesis using e by (simp add: valid_data_def list_results_Inr)
qed

lemma update_dashboard_total:
  "\<exists>snapshot. fst (update_dashboard ex w) = Inr snapshot \<and> None \<notin> set snapshot"
proof -
  obtain symbols w1 where g: "get_active_symbols ex w = (Inr symbols, w1)"
    using get_active_symbols_total [of ex w] by (cases "get_active_symbols ex w") auto
  from valid_data_total [of ex symbols w1] g show ?thesis
    by (auto simp add: update_dashboard_def)
qed

lemma fetch_returns:
  assumes "\<forall>v. \<exists>v'. f v = (Inr x, v')"
  shows "\<exists>v' tr. fetch_with_retry f 3 1 v = (Inr (Some x), v', tr)"
proof -
  from assms obtain v' where "f v = (Inr x, v')" by blast
  then have "fetch_with_retry f 3 1 v = (Inr (Some x), v', [Invoke])"
    by (intro fetch_with_retry_success) simp_all
  then show ?thesis by blast
qed

lemma scenario_A:
  assumes "\<forall>v. \<exists>v'. fetch_ohlcv ex A v = (Inr buckets, v')" and "length buckets = 168"
  shows "\<exists>a v'. analyze_symbol ex A v = (Inr (Some a), v') \<and> analysis_of A buckets = Inr a \<and>
    result_symbol a = str_replace A ''/USDT'' ''''"
proof -
  from fetch_returns [OF assms(1)] obtain v' tr where
    f: "fetch_with_retry (fetch_ohlcv ex A) 3 1 v = (Inr (Some buckets), v', tr)" by blast
  have l: "168 \<le> length buckets" using assms(2) by simp
  from analysis_of_long [OF l, of A] obtain a where
    a: "analysis_of A buckets = Inr a" "result_symbol a = str_replace A ''/USDT'' ''''" by simp
  with analyze_symbol_fetched [OF f] l show ?thesis by simp
qed

lemma scenario_B:
  assumes "\<forall>v. \<exists>bs v'. fetch_ohlcv ex B v = (Inr bs, v') \<and> length bs = 10"
  shows "\<exists>v'. analyze_symbol ex B v = (Inr None, v')"
proof -
  from assms obtain bs v' where b: "fetch_ohlcv ex B v = (Inr bs, v')" "length bs = 10" by blast
  then have "fetch_with_retry (fetch_ohlcv ex B) 3 1 v = (Inr (Some bs), v', [Invoke])"
    by (intro fetch_with_retry_success) simp_all
  from analyze_symbol_fetched [OF this] b(2) show ?thesis by simp
qed

lemma scenario_C:
  assumes "\<forall>v. \<exists>err v'. fetch_ohlcv ex C v = (Inl err, v') \<and> \<not> is_transient err"
  shows "\<exists>v'. analyze_symbol ex C v = (Inr None, v')"
proof -
  from assms obtain err v' where c: "fetch_ohlcv ex C v = (Inl err, v')" "\<not> is_transient err"
    by blast
  then have "fetch_with_retry (fetch_ohlcv ex C) 3 1 v = (Inl err, v', [Invoke])"
    by (intro fetch_with_retry_first_call) simp_all
  from analyze_symbol_fetch_raises [OF this] show ?thesis by blast
qed

lemma scenario_ABC:
  assumes A: "\<forall>v. \<exists>v'. fetch_ohlcv ex A v = (Inr buckets, v')" "length buckets = 168"
    and B: "\<forall>v. \<exists>bs v'. fetch_ohlcv ex B v = (Inr bs, v') \<and> length bs = 10"
    and C: "\<forall>v. \<exists>err v'. fetch_ohlcv ex C v = (Inl err, v') \<and> \<not> is_transient err"
  shows "\<exists>a. fst (valid_data ex [A, B, C] w) = Inr [Some a] \<and> analysis_of A buckets = Inr a \<and>
    result_symbol a = str_replace A ''/USDT'' ''''"
proof -
  from scenario_A [OF A, of w] obtain a w1 where
    a: "analyze_symbol ex A w = (Inr (Some a), w1)" "analysis_of A buckets = Inr a"
      "result_symbol a = str_replace A ''/USDT'' ''''" by blast
  from scenario_B [OF B, of w1] obtain w2 where b: "analyze_symbol ex B w1 = (Inr None, w2)"
    by blast
  from scenario_C [OF C, of w2] obtain w3 where c: "analyze_symbol ex C w2 = (Inr None, w3)"
    by blast
  have "valid_data ex [A, B, C] w = (Inr [Some a], w3)"
    by (simp add: valid_data_Cons [OF a(1)] valid_data_Cons [OF b] valid_data_Cons [OF c]
        valid_data_Nil)
  with a show ?thesis by simp
qed

text \<open>
  Claim C4. The list \<open>update_dashboard\<close> hands to the presentation never holds
  \<^verbatim>\<open>None\<close>, and has at most one entry per symbol. A symbol whose fetch raises, whose
  fetch returns fewer than 50 candles, or whose analysis raises contributes nothing: the
  list is the one of the remaining symbols, run from the state of the provider that the
  failed unit left. A symbol whose analysis succeeds contributes its result in front of
  those of the remaining symbols. In particular, when the provider always returns the
  same 168 candles for \<open>A\<close>, always returns 10 candles for \<open>B\<close> and always raises an
  error that is not retried for \<open>C\<close>, the list for the universe \<open>[A, B, C]\<close> is the single
  result of \<open>A\<close>.
\<close>

theorem snapshot_without_failed_results:
  "(\<exists>snapshot. fst (update_dashboard ex w) = Inr snapshot \<and> None \<notin> set snapshot) \<and>
   (\<exists>snapshot. fst (valid_data ex symbols w) = Inr snapshot \<and> None \<notin> set snapshot \<and>
      length snapshot \<le> length symbols) \<and>
   (fetch_with_retry (fetch_ohlcv ex s) 3 1 w = (Inl e, w', tr) \<longrightarrow>
      valid_data ex (s # rest) w = valid_data ex rest w') \<and>
   (fetch_with_retry (fetch_ohlcv ex s) 3 1 w = (Inr (Some ohlcv), w', tr) \<and>
    length ohlcv < 50 \<longrightarrow>
      valid_data ex (s # rest) w = valid_data ex rest w') \<and>
   (fetch_with_retry (fetch_ohlcv ex s) 3 1 w = (Inr (Some ohlcv), w', tr) \<and>
    analysis_of s ohlcv = Inl e \<longrightarrow>
      valid_data ex (s # rest) w = valid_data ex rest w') \<and>
   (fetch_with_retry (fetch_ohlcv ex s) 3 1 w = (Inr (Some ohlcv), w', tr) \<and>
    50 \<le> length ohlcv \<and> analysis_of s ohlcv = Inr a \<longrightarrow>
      valid_data ex (s # rest) w =
        (map_sum id (Cons (Some a)) (fst (valid_data ex rest w')), snd (valid_data ex rest w'))) \<and>
   ((\<forall>v. \<exists>v'. fetch_ohlcv ex A v = (Inr buckets, v')) \<and> length buckets = 168 \<and>
    (\<forall>v. \<exists>bs v'. fetch_ohlcv ex B v = (Inr bs, v') \<and> length bs = 10) \<and>
    (\<forall>v. \<exists>err v'. fetch_ohlcv ex C v = (Inl err, v') \<and> \<not> is_transient err) \<longrightarrow>
      (\<exists>r. fst (valid_data ex [A, B, C] w) = Inr [Some r] \<and> analysis_of A buckets = Inr r \<and>
         result_symbol r = str_replace A ''/USDT'' '''' \<and>
         (fst (get_active_symbols ex w0) = Inr [A, B, C] \<and> snd (get_active_symbols ex w0) = w \<longrightarrow>
            fst (update_dashboard ex w0) = Inr [Some r])))"
proof (intro conjI impI)
  show "\<exists>snapshot. fst (update_dashboard ex w) = Inr snapshot \<and> None \<notin> set snapshot"
    by (rule update_dashboard_total)
next
  show "\<exists>snapshot. fst (valid_data ex symbols w) = Inr snapshot \<and> None \<notin> set snapshot \<and>
      length snapshot \<le> length symbols"
    by (rule valid_data_total)
next
  assume "fetch_with_retry (fetch_ohlcv ex s) 3 1 w = (Inl e, w', tr)"
  from valid_data_Cons [OF analyze_symbol_fetch_raises [OF this]]
  show "valid_data ex (s # rest) w = valid_data ex rest w'" by simp
next
  assume "fetch_with_retry (fetch_ohlcv ex s) 3 1 w = (Inr (Some ohlcv), w', tr) \<and>
    length ohlcv < 50"
  then have "analyze_symbol ex s w = (Inr None, w')"
    by (simp add: analyze_symbol_fetched)
  from valid_data_Cons [OF this]
  show "valid_data ex (s # rest) w = valid_data ex rest w'" by simp
next
  assume "fetch_with_retry (fetch_ohlcv ex s) 3 1 w = (Inr (Some ohlcv), w', tr) \<and>
    analysis_of s ohlcv = Inl e"
  then have "analyze_symbol ex s w = (Inr None, w')"
    by (simp add: analyze_symbol_fetched)
  from valid_data_Cons [OF this]
  show "valid_data ex (s # rest) w = valid_data ex rest w'" by simp
next
  assume "fetch_with_retry (fetch_ohlcv ex s) 3 1 w = (Inr (Some ohlcv), w', tr) \<and>
    50 \<le> length ohlcv \<and> analysis_of s ohlcv = Inr a"
  then have "analyze_symbol ex s w = (Inr (Some a), w')"
    by (simp add: analyze_symbol_fetched)
  from valid_data_Cons [OF this]
  show "valid_data ex (s # rest) w =
        (map_sum id (Cons (Some a)) (fst (valid_data ex rest w')), snd (valid_data ex rest w'))"
    by simp
next
  assume h: "(\<forall>v. \<exists>v'. fetch_ohlcv ex A v = (Inr buckets, v')) \<and> length buckets = 168 \<and>
    (\<forall>v. \<exists>bs v'. fetch_ohlcv ex B v = (Inr bs, v') \<and> length bs = 10) \<and>
    (\<forall>v. \<exists>err v'. fetch_ohlcv ex C v = (Inl err, v') \<and> \<not> is_transient err)"
  then have "\<exists>r. fst (valid_data ex [A, B, C] w) = Inr [Some r] \<and> analysis_of A buckets = Inr r \<and>
    result_symbol r = str_replace A ''/USDT'' ''''"
    by (intro scenario_ABC) simp_all
  then obtain r where r: "fst (valid_data ex [A, B, C] w) = Inr [Some r]"
    "analysis_of A buckets = Inr r" "result_symbol r = str_replace A ''/USDT'' ''''" by blast
  have "fst (update_dashboard ex w0) = Inr [Some r]"
    if "fst (get_active_symbols ex w0) = Inr [A, B, C] \<and> snd (get_active_symbols ex w0) = w"
    using that r(1) by (cases "get_active_symbols ex w0") (simp add: update_dashboard_def)
  with r show "\<exists>r. fst (valid_data ex [A, B, C] w) = Inr [Some r] \<and> analysis_of A buckets = Inr r \<and>
         result_symbol r = str_replace A ''/USDT'' '''' \<and>
         (fst (get_active_symbols ex w0) = Inr [A, B, C] \<and> snd (get_active_symbols ex w0) = w \<longrightarrow>
            fst (update_dashboard ex w0) = Inr [Some r])"
    by blast
qed

theorem snapshot_without_failed_results_witness:
  "(\<forall>v. \<exists>v'. fetch_ohlcv sample_exchange ''BTC/USDT'' v = (Inr (replicate 168 sample_candle), v')) \<and>
   length (replicate 168 sample_candle) = 168 \<and>
   (\<forall>v. \<exists>bs v'. fetch_ohlcv sample_exchange ''ETH/USDT'' v = (Inr bs, v') \<and> length bs = 10) \<and>
   (\<forall>v. \<exists>err v'. fetch_ohlcv sample_exchange ''SOL/USDT'' v = (Inl err, v') \<and> \<not> is_transient err) \<and>
   get_active_symbols sample_exchange 0 = (Inr [''BTC/USDT'', ''ETH/USDT'', ''SOL/USDT''], 2) \<and>
   (\<exists>r. fst (update_dashboard sample_exchange 0) = Inr [Some r] \<and>
      analysis_of ''BTC/USDT'' (replicate 168 sample_candle) = Inr r \<and>
      result_symbol r = ''BTC'') \<and>
   fetch_with_retry (fetch_ohlcv sample_exchange ''SOL/USDT'') 3 1 0 = (Inl ValueError, 1, [Invoke]) \<and>
   valid_data sample_exchange [''SOL/USDT''] 0 = (Inr [], 1) \<and>
   fetch_with_retry (fetch_ohlcv sample_exchange ''ETH/USDT'') 3 1 0 =
     (Inr (Some (replicate 10 sample_candle)), 1, [Invoke]) \<and>
   length (replicate 10 sample_candle) < 50 \<and>
   valid_data sample_exchange [''ETH/USDT''] 0 = (Inr [], 1)"
proof -
  have A: "\<forall>v. \<exists>v'. fetch_ohlcv sample_exchange ''BTC/USDT'' v = (Inr (replicate 168 sample_candle), v')"
    by (simp add: sample_exchange_def)
  have B: "\<forall>v. \<exists>bs v'. fetch_ohlcv sample_exchange ''ETH/USDT'' v = (Inr bs, v') \<and> length bs = 10"
    by (simp add: sample_exchange_def)
  have C: "\<forall>v. \<exists>err v'. fetch_ohlcv sample_exchange ''SOL/USDT'' v = (Inl err, v') \<and> \<not> is_transient err"
    by (simp add: sample_exchange_def)
  have g: "get_active_symbols sample_exchange 0 = (Inr [''BTC/USDT'', ''ETH/USDT'', ''SOL/USDT''], 2)"
    using sample_get_active_symbols [of 0] by (simp add: numeral_2_eq_2)
  have sol: "fetch_with_retry (fetch_ohlcv sample_exchange ''SOL/USDT'') 3 1 0 = (Inl ValueError, 1, [Invoke])"
    using sample_fetch_sol [of 0] by simp
  have eth: "fetch_with_retry (fetch_ohlcv sample_exchange ''ETH/USDT'') 3 1 0 =
     (Inr (Some (replicate 10 sample_candle)), 1, [Invoke])"
    using sample_fetch_eth [of 0] by simp
  have name: "str_replace ''BTC/USDT'' ''/USDT'' '''' = ''BTC''"
    by (simp add: str_replace_def)
  from snapshot_without_failed_results
    [of sample_exchange 2 "[]" "''SOL/USDT''" ValueError 1 "[Invoke]" "[]" "[]" undefined
      "''BTC/USDT''" "replicate 168 sample_candle" "''ETH/USDT''" "''SOL/USDT''" 0]
    A B C g
  have 1: "\<exists>r. fst (update_dashboard sample_exchange 0) = Inr [Some r] \<and>
      analysis_of ''BTC/USDT'' (replicate 168 sample_candle) = Inr r \<and>
      result_symbol r = ''BTC''"
    by (auto simp add: name)
  from snapshot_without_failed_results
    [of sample_exchange 0 "[]" "''SOL/USDT''" ValueError 1 "[Invoke]" "[]"] sol
  have 2: "valid_data sample_exchange [''SOL/USDT''] 0 = (Inr [], 1)"
    by (simp add: valid_data_Nil)
  from snapshot_without_failed_results
    [of sample_exchange 0 "[]" "''ETH/USDT''" ValueError 1 "[Invoke]" "[]"
      "replicate 10 sample_candle"] eth
  have 3: "valid_data sample_exchange [''ETH/USDT''] 0 = (Inr [], 1)"
    by (simp add: valid_data_Nil)
  from A B C g 1 2 3 sol eth show ?thesis by simp
qed

end
